theory Spec2Isabelle
  imports Main "HOL-Library.Word" "HOL-Library.Sublist"
begin

section \<open>Data model of the two service entry points\<close>

text \<open>
  The two programs, \<^verbatim>\<open>openvpn3-service-configmgr.cpp\<close> and
  \<^verbatim>\<open>openvpn3-service-netcfg.cpp\<close>, are straight-line sequences of calls into
  collaborators (GLib main loop, D-Bus wrapper, log writers, libcap-ng, the idle checker).
  The model records every such call, in program order, as an \<open>action\<close>; a run of a
  function is the list of actions it performed together with how it ended (a return
  value or a C++ exception leaving the function).
\<close>

datatype signal = SIGINT | SIGTERM

text \<open>The two interface-name constants handed to the log service proxy.\<close>

datatype interface = OpenVPN3DBus_interf_configuration | OpenVPN3DBus_interf_netcfg

text \<open>Where the \<open>std::ostream *logfile\<close> of the log writer points to.\<close>

datatype log_dest = LogFile string | Console

datatype capng_flag = CAPNG_DROP_SUPP_GRP | CAPNG_CLEAR_BOUNDING

datatype capng_type = CAPNG_EFFECTIVE | CAPNG_PERMITTED

datatype capability = CAP_NET_ADMIN

datatype action =
    PrintVersion                          \<comment> \<open>\<open>std::cout << get_version(...)\<close>\<close>
  | MainLoopNew                           \<comment> \<open>\<open>g_main_loop_new(NULL, FALSE)\<close>\<close>
  | LogFileOpen string                    \<comment> \<open>\<open>logfs.open(fname, std::ios_base::app)\<close>\<close>
  | ANSIColoursNew                        \<comment> \<open>\<open>new ANSIColours()\<close>\<close>
  | ColourStreamWriterNew log_dest        \<comment> \<open>\<open>new ColourStreamWriter(*logfile, ...)\<close>\<close>
  | StreamLogWriterNew log_dest           \<comment> \<open>\<open>new StreamLogWriter(*logfile)\<close>\<close>
  | DBusNew                               \<comment> \<open>\<open>DBus dbus(G_BUS_TYPE_SYSTEM)\<close>\<close>
  | DBusConnect                           \<comment> \<open>\<open>dbus.Connect()\<close>\<close>
  | DBusDestroy                           \<comment> \<open>\<open>dbus\<close> leaves its scope: the destructor\<close>
  | ConfigManagerDBusNew bool bool        \<comment> \<open>has a log writer, signal broadcast\<close>
  | NetworkCfgServiceNew bool             \<comment> \<open>has a log writer\<close>
  | AttachInterface interface             \<comment> \<open>\<open>LogServiceProxy::AttachInterface(conn, i)\<close>\<close>
  | LogServiceProxyNew                    \<comment> \<open>\<open>new LogServiceProxy(conn)\<close>\<close>
  | Attach interface                      \<comment> \<open>\<open>logservice->Attach(i)\<close>\<close>
  | Detach interface                      \<comment> \<open>\<open>proxy->Detach(i)\<close>\<close>
  | SetLogLevel "32 word"                 \<comment> \<open>\<open>cfgmgr.SetLogLevel(log_level)\<close>\<close>
  | SetDefaultLogLevel int                \<comment> \<open>\<open>netcfgsrv.SetDefaultLogLevel(log_level)\<close>\<close>
  | SetStateDirectory string
  | Umask nat
  | IdleCheckNew nat                      \<comment> \<open>\<open>new IdleCheck(main_loop, minutes(n))\<close>\<close>
  | IdleSetPollTime nat                   \<comment> \<open>\<open>idle_exit->SetPollTime(seconds(n))\<close>\<close>
  | EnableIdleCheck                       \<comment> \<open>\<open>service.EnableIdleCheck(idle_exit)\<close>\<close>
  | IdleEnable                            \<comment> \<open>\<open>idle_exit->Enable()\<close>\<close>
  | IdleDisable                           \<comment> \<open>\<open>idle_exit->Disable()\<close>\<close>
  | IdleJoin                              \<comment> \<open>\<open>idle_exit->Join()\<close>\<close>
  | SignalAdd signal                      \<comment> \<open>\<open>g_unix_signal_add(sig, stop_handler, main_loop)\<close>\<close>
  | Setup                                 \<comment> \<open>\<open>service.Setup()\<close>\<close>
  | MainLoopRun                           \<comment> \<open>\<open>g_main_loop_run(main_loop)\<close>, until it returns\<close>
  | Usleep nat
  | MainLoopUnref                         \<comment> \<open>\<open>g_main_loop_unref(main_loop)\<close>\<close>
  | DropRoot                              \<comment> \<open>\<open>drop_root()\<close> of common/utils.hpp\<close>
  | LookupUid | LookupGid                 \<comment> \<open>\<open>lookup_uid(OPENVPN_USERNAME)\<close>, \<open>lookup_gid(OPENVPN_GROUP)\<close>\<close>
  | CapngClear                            \<comment> \<open>\<open>capng_clear(CAPNG_SELECT_BOTH)\<close>\<close>
  | CapngUpdateAdd "capng_type list" capability
  | CapngChangeId "capng_flag list"       \<comment> \<open>\<open>capng_change_id(uid, gid, flags)\<close>\<close>
  | CapngApply                            \<comment> \<open>\<open>capng_apply(CAPNG_SELECT_BOTH)\<close>\<close>
  | PrintResult int                       \<comment> \<open>\<open>std::cout << "Result: " << res\<close>\<close>
  | PrintFatalError                       \<comment> \<open>\<open>std::cout << "FATAL ERROR: " << excp.what()\<close>\<close>
  | PrintError                            \<comment> \<open>the messages printed by the handlers of \<open>main\<close>\<close>

text \<open>
  The exception classes the two files name in a \<open>throw\<close> or a \<open>catch\<close>, and any
  other class a collaborator may throw.
\<close>

datatype exn_class =
    CommandException
  | CommandArgBaseException
  | LogServiceProxyException
  | std_exception
  | OtherException nat

text \<open>
  The options the two \<open>main\<close> functions register with \<open>AddOption\<close>. An option that
  takes a value is \<open>Some\<close> of its first value (\<open>GetValue(name, 0)\<close>) when
  \<open>Present(name)\<close> holds; an option without a value is a flag.
\<close>

record parsed_args =
  opt_log_level :: "string option"
  opt_log_file :: "string option"
  opt_colour :: bool
  opt_signal_broadcast :: bool
  opt_idle_exit :: "string option"
  opt_state_dir :: "string option"
  opt_disable_capabilities :: bool
  opt_run_as_root :: bool

text \<open>
  Everything the two files take from outside: the process identity, the status that
  \<open>capng_change_id\<close> returns, which collaborator call throws which exception, the
  inheritance relation between the exception classes (declared in headers that are not
  part of the two files), \<open>std::atoi\<close>, whether \<open>LogServiceProxy::AttachInterface\<close>
  hands back a non-null pointer, and the build flag \<open>DEBUG_OPTIONS\<close>.
\<close>

record env =
  getegid :: nat
  geteuid :: nat
  capng_change_id :: int
  throws :: "action \<Rightarrow> exn_class option"
  derives :: "exn_class \<Rightarrow> exn_class \<Rightarrow> bool"
  atoi :: "string \<Rightarrow> int"
  AttachInterface_ptr :: bool
  DEBUG_OPTIONS :: bool

text \<open>A handler \<open>catch (H&)\<close> takes an exception of class \<open>H\<close> or of a class derived from it.\<close>

definition catches :: "env \<Rightarrow> exn_class \<Rightarrow> exn_class \<Rightarrow> bool" where
  "catches env handler e = (e = handler \<or> derives env e handler)"

section \<open>Running a sequence of statements\<close>

text \<open>
  A statement is a call of a C++ collaborator, which may throw (\<open>Invoke\<close>), a call of a
  C function or a stream output, which cannot (\<open>Do\<close>), or a \<open>throw\<close> of the file's
  own (\<open>Raise\<close>). \<open>exec\<close> runs statements in order and stops at the first exception;
  the call that threw is part of the trace.
\<close>

datatype stmt = Invoke action | Do action | Raise exn_class

fun exec :: "env \<Rightarrow> stmt list \<Rightarrow> action list \<times> exn_class option" where
  "exec env [] = ([], None)"
| "exec env (Do a # ss) = (case exec env ss of (tr, r) \<Rightarrow> (a # tr, r))"
| "exec env (Invoke a # ss) =
     (case throws env a of
        Some e \<Rightarrow> ([a], Some e)
      | None \<Rightarrow> (case exec env ss of (tr, r) \<Rightarrow> (a # tr, r)))"
| "exec env (Raise e # ss) = ([], Some e)"

text \<open>
  The scope of the local \<open>DBus dbus(G_BUS_TYPE_SYSTEM)\<close>: once the constructor has
  returned, the destructor runs when the scope is left, by a return or by an exception.
  (C++ leaves it to the implementation whether destructors run for an exception that no
  handler takes; the model runs them.)
\<close>

definition scope_DBus :: "env \<Rightarrow> stmt list \<Rightarrow> action list \<times> exn_class option" where
  "scope_DBus env body =
     (case exec env [Invoke DBusNew] of
        (t, Some e) \<Rightarrow> (t, Some e)
      | (t, None) \<Rightarrow> (case exec env body of (t', r) \<Rightarrow> (t @ t' @ [DBusDestroy], r)))"

section \<open>The code shared by both files\<close>

text \<open>Lines 48-78 of the configuration manager, 72-101 of the network service.\<close>

definition open_log :: "parsed_args \<Rightarrow> stmt list" where
  "open_log args =
     (case opt_log_file args of
        None \<Rightarrow> []
      | Some fname \<Rightarrow>
          (let logfile = (if fname \<noteq> ''stdout:'' then LogFile fname else Console) in
             (if fname \<noteq> ''stdout:'' then [Do (LogFileOpen fname)] else [])
             @ (if opt_colour args
                then [Invoke ANSIColoursNew, Invoke (ColourStreamWriterNew logfile)]
                else [Invoke (StreamLogWriterNew logfile)])))"

text \<open>\<open>logwr.get()\<close> is non-null exactly when a log file was asked for.\<close>

definition logwr :: "parsed_args \<Rightarrow> bool" where
  "logwr args = (opt_log_file args \<noteq> None)"

text \<open>
  \<open>unsigned int idle_wait_min = dflt; if (Present("idle-exit")) idle_wait_min =
  std::atoi(...)\<close>: the \<open>int\<close> is converted to \<open>unsigned int\<close>, modulo \<open>2 ^ 32\<close>.
\<close>

definition idle_wait_min :: "env \<Rightarrow> 32 word \<Rightarrow> parsed_args \<Rightarrow> 32 word" where
  "idle_wait_min env dflt args =
     (case opt_idle_exit args of None \<Rightarrow> dflt | Some s \<Rightarrow> word_of_int (atoi env s))"

section \<open>openvpn3-service-configmgr.cpp\<close>

definition cfg_log_level :: "env \<Rightarrow> parsed_args \<Rightarrow> 32 word" where
  "cfg_log_level env args =
     (case opt_log_level args of None \<Rightarrow> 3 | Some s \<Rightarrow> word_of_int (atoi env s))"

text \<open>Lines 35-78: everything before \<open>dbus\<close> is declared.\<close>

definition config_manager_prologue :: "parsed_args \<Rightarrow> stmt list" where
  "config_manager_prologue args = [Do PrintVersion, Do MainLoopNew] @ open_log args"

text \<open>Lines 81-137: from \<open>dbus.Connect()\<close> to the last statement before \<open>return 0\<close>.\<close>

definition config_manager_body :: "env \<Rightarrow> parsed_args \<Rightarrow> stmt list" where
  "config_manager_body env args =
     (let idle = idle_wait_min env 3 args;
          signal_broadcast = opt_signal_broadcast args;
          logsrvprx = (\<not> signal_broadcast \<and> AttachInterface_ptr env)
      in
        [Invoke DBusConnect,
         Invoke (ConfigManagerDBusNew (logwr args) signal_broadcast)]
        @ (if \<not> signal_broadcast
           then [Invoke (AttachInterface OpenVPN3DBus_interf_configuration)] else [])
        @ [Invoke (SetLogLevel (cfg_log_level env args))]
        @ (case opt_state_dir args of
             Some dir \<Rightarrow> [Invoke (SetStateDirectory dir), Do (Umask 63)]
           | None \<Rightarrow> [])
        @ (if idle > 0
           then [Invoke (IdleCheckNew (unat idle)), Invoke EnableIdleCheck]
           else [Do (SignalAdd SIGINT), Do (SignalAdd SIGTERM)])
        @ [Invoke Setup]
        @ (if idle > 0 then [Invoke IdleEnable] else [])
        @ [Do MainLoopRun, Do MainLoopUnref]
        @ (if logsrvprx then [Invoke (Detach OpenVPN3DBus_interf_configuration)] else [])
        @ (if idle > 0 then [Invoke IdleDisable, Invoke IdleJoin] else []))"

definition config_manager :: "env \<Rightarrow> parsed_args \<Rightarrow> action list \<times> (exn_class + int)" where
  "config_manager env args =
     (case exec env (config_manager_prologue args) of
        (t, Some e) \<Rightarrow> (t, Inl e)
      | (t, None) \<Rightarrow>
          (case scope_DBus env (config_manager_body env args) of
             (t', Some e) \<Rightarrow> (t @ t', Inl e)
           | (t', None) \<Rightarrow> (t @ t', Inr 0)))"

text \<open>
  \<open>SingleCommand::RunCommand\<close> belongs to common/cmdargparser.hpp. What it does with
  \<open>argv\<close> is an input here: the parser throws, or it hands the parsed arguments to the
  registered command function and returns its result.
\<close>

datatype cmdline = ArgError exn_class | Args parsed_args

text \<open>How the process ends: \<open>main\<close> returns a code, or no handler takes the exception.\<close>

datatype exit_status = Exit int | Terminate exn_class

text \<open>The two handlers of \<open>main\<close>, in their order (lines 171-181).\<close>

definition configmgr_handlers :: "env \<Rightarrow> action list \<Rightarrow> exn_class \<Rightarrow> action list \<times> exit_status" where
  "configmgr_handlers env t e =
     (if catches env LogServiceProxyException e then (t @ [PrintError], Exit 2)
      else if catches env CommandArgBaseException e then (t @ [PrintError], Exit 2)
      else (t, Terminate e))"

definition configmgr_main :: "env \<Rightarrow> cmdline \<Rightarrow> action list \<times> exit_status" where
  "configmgr_main env cl =
     (case exec env [Invoke DropRoot] of
        (t, Some e) \<Rightarrow> configmgr_handlers env t e
      | (t, None) \<Rightarrow>
          (case cl of
             ArgError e \<Rightarrow> configmgr_handlers env t e
           | Args args \<Rightarrow>
               (case config_manager env args of
                  (t', Inl e) \<Rightarrow> configmgr_handlers env (t @ t') e
                | (t', Inr rc) \<Rightarrow> (t @ t', Exit rc))))"

section \<open>openvpn3-service-netcfg.cpp\<close>

definition drop_root_ng :: "env \<Rightarrow> stmt list" where
  "drop_root_ng env =
     [Invoke LookupUid, Invoke LookupGid,
      Do (CapngChangeId [CAPNG_DROP_SUPP_GRP, CAPNG_CLEAR_BOUNDING])]
     @ (let res = capng_change_id env in
          if 0 \<noteq> res then [Do (PrintResult res), Raise CommandException] else [])"

text \<open>Lines 59-126: the root check, the log destination, the capabilities.\<close>

definition netcfg_main_prologue :: "env \<Rightarrow> parsed_args \<Rightarrow> stmt list" where
  "netcfg_main_prologue env args =
     (if 0 \<noteq> getegid env \<or> 0 \<noteq> geteuid env then [Raise CommandException] else [])
     @ open_log args
     @ [Do CapngClear]
     @ (if DEBUG_OPTIONS env
        then (if \<not> opt_disable_capabilities args
              then [Do (CapngUpdateAdd [CAPNG_EFFECTIVE, CAPNG_PERMITTED] CAP_NET_ADMIN)]
              else [])
             @ (if \<not> opt_run_as_root args then drop_root_ng env else [])
        else [Do (CapngUpdateAdd [CAPNG_EFFECTIVE, CAPNG_PERMITTED] CAP_NET_ADMIN)]
             @ drop_root_ng env)
     @ [Do CapngApply]"

definition netcfg_log_level :: "env \<Rightarrow> parsed_args \<Rightarrow> int" where
  "netcfg_log_level env args =
     (case opt_log_level args of None \<Rightarrow> - 1 | Some s \<Rightarrow> atoi env s)"

text \<open>Lines 150-203: the \<open>try\<close> block after \<open>DBus dbus(G_BUS_TYPE_SYSTEM)\<close>.\<close>

definition netcfg_main_body :: "env \<Rightarrow> parsed_args \<Rightarrow> stmt list" where
  "netcfg_main_body env args =
     (let log_level = netcfg_log_level env args;
          idle = idle_wait_min env 5 args;
          signal_broadcast = opt_signal_broadcast args;
          logservice = (\<not> signal_broadcast)
      in
        [Invoke DBusConnect]
        @ (if \<not> signal_broadcast
           then [Invoke LogServiceProxyNew, Invoke (Attach OpenVPN3DBus_interf_netcfg)]
           else [])
        @ [Do PrintVersion, Invoke (NetworkCfgServiceNew (logwr args))]
        @ (if log_level > 0 then [Invoke (SetDefaultLogLevel log_level)] else [])
        @ [Do MainLoopNew, Do (SignalAdd SIGINT), Do (SignalAdd SIGTERM)]
        @ (if idle > 0
           then [Invoke (IdleCheckNew (unat idle)), Invoke (IdleSetPollTime 30),
                 Invoke EnableIdleCheck]
           else [])
        @ [Invoke Setup]
        @ (if idle > 0 then [Invoke IdleEnable] else [])
        @ [Do MainLoopRun, Do (Usleep 500), Do MainLoopUnref]
        @ (if logservice then [Invoke (Detach OpenVPN3DBus_interf_netcfg)] else [])
        @ (if idle > 0 then [Invoke IdleDisable, Invoke IdleJoin] else []))"

definition netcfg_main :: "env \<Rightarrow> parsed_args \<Rightarrow> action list \<times> (exn_class + int)" where
  "netcfg_main env args =
     (case exec env (netcfg_main_prologue env args) of
        (t, Some e) \<Rightarrow> (t, Inl e)
      | (t, None) \<Rightarrow>
          (case scope_DBus env (netcfg_main_body env args) of
             (t', Some e) \<Rightarrow>
               (if catches env std_exception e then (t @ t' @ [PrintFatalError], Inr 3)
                else (t @ t', Inl e))
           | (t', None) \<Rightarrow> (t @ t', Inr 0)))"

definition netcfg_handlers :: "env \<Rightarrow> action list \<Rightarrow> exn_class \<Rightarrow> action list \<times> exit_status" where
  "netcfg_handlers env t e =
     (if catches env CommandException e then (t @ [PrintError], Exit 2)
      else (t, Terminate e))"

definition netcfg_service_main :: "env \<Rightarrow> cmdline \<Rightarrow> action list \<times> exit_status" where
  "netcfg_service_main env cl =
     (case cl of
        ArgError e \<Rightarrow> netcfg_handlers env [] e
      | Args args \<Rightarrow>
          (case netcfg_main env args of
             (t, Inl e) \<Rightarrow> netcfg_handlers env t e
           | (t, Inr rc) \<Rightarrow> (t, Exit rc)))"

section \<open>Reading a trace\<close>

text \<open>The calls a statement list makes when nothing throws, up to its first \<open>throw\<close>.\<close>

fun actions_of :: "stmt list \<Rightarrow> action list" where
  "actions_of [] = []"
| "actions_of (Do a # ss) = a # actions_of ss"
| "actions_of (Invoke a # ss) = a # actions_of ss"
| "actions_of (Raise e # ss) = []"

text \<open>Whether a statement list contains a \<open>throw\<close> of the file's own.\<close>

fun raises :: "stmt list \<Rightarrow> bool" where
  "raises [] = False"
| "raises (Raise e # ss) = True"
| "raises (s # ss) = raises ss"

text \<open>
  \<open>precedes a b tr\<close>: both \<open>a\<close> and \<open>b\<close> occur in \<open>tr\<close>, and the first \<open>a\<close> comes
  before the first \<open>b\<close>.
\<close>

fun precedes :: "'a \<Rightarrow> 'a \<Rightarrow> 'a list \<Rightarrow> bool" where
  "precedes a b [] = False"
| "precedes a b (x # xs) =
     (if x = b then False else if x = a then b \<in> set xs else precedes a b xs)"

text \<open>
  A run that an exception cuts short has made a prefix of the calls of the full run,
  followed by what unwinding and the handler add.
\<close>

definition truncation :: "action list \<Rightarrow> action list \<Rightarrow> bool" where
  "truncation tr full =
     (\<exists>p s. prefix p full \<and> tr = p @ s \<and> set s \<subseteq> {DBusDestroy, PrintFatalError})"

definition config_manager_calls :: "env \<Rightarrow> parsed_args \<Rightarrow> action list" where
  "config_manager_calls env args =
     actions_of (config_manager_prologue args)
     @ DBusNew # actions_of (config_manager_body env args)"

definition netcfg_main_calls :: "env \<Rightarrow> parsed_args \<Rightarrow> action list" where
  "netcfg_main_calls env args =
     actions_of (netcfg_main_prologue env args)
     @ DBusNew # actions_of (netcfg_main_body env args)"

text \<open>The calls that construct the log sink, for the given arguments.\<close>

definition log_sink_calls :: "parsed_args \<Rightarrow> action list" where
  "log_sink_calls args = actions_of (open_log args)"

text \<open>Classes of calls: the idle checker's, the log relay's, libcap-ng's.\<close>

definition is_watchdog_call :: "action \<Rightarrow> bool" where
  "is_watchdog_call a =
     (case a of
        IdleCheckNew _ \<Rightarrow> True | IdleSetPollTime _ \<Rightarrow> True | EnableIdleCheck \<Rightarrow> True
      | IdleEnable \<Rightarrow> True | IdleDisable \<Rightarrow> True | IdleJoin \<Rightarrow> True | _ \<Rightarrow> False)"

definition is_relay_call :: "action \<Rightarrow> bool" where
  "is_relay_call a =
     (case a of
        AttachInterface _ \<Rightarrow> True | LogServiceProxyNew \<Rightarrow> True | Attach _ \<Rightarrow> True
      | Detach _ \<Rightarrow> True | _ \<Rightarrow> False)"

definition is_capng_call :: "action \<Rightarrow> bool" where
  "is_capng_call a =
     (case a of
        CapngClear \<Rightarrow> True | CapngUpdateAdd _ _ \<Rightarrow> True | CapngChangeId _ \<Rightarrow> True
      | CapngApply \<Rightarrow> True | _ \<Rightarrow> False)"

text \<open>
  The calls that can occur before \<open>dbus\<close> is declared, in either file.
\<close>

definition is_prologue_call :: "action \<Rightarrow> bool" where
  "is_prologue_call a =
     (case a of
        PrintVersion \<Rightarrow> True | MainLoopNew \<Rightarrow> True | LogFileOpen _ \<Rightarrow> True
      | ANSIColoursNew \<Rightarrow> True | ColourStreamWriterNew _ \<Rightarrow> True
      | StreamLogWriterNew _ \<Rightarrow> True | CapngClear \<Rightarrow> True | CapngUpdateAdd _ _ \<Rightarrow> True
      | LookupUid \<Rightarrow> True | LookupGid \<Rightarrow> True | CapngChangeId _ \<Rightarrow> True
      | CapngApply \<Rightarrow> True | PrintResult _ \<Rightarrow> True | _ \<Rightarrow> False)"

section \<open>Concrete inputs\<close>

text \<open>
  A decimal \<open>atoi\<close> for the concrete environments: leading blanks, an optional sign,
  then digits up to the first other character.
\<close>

fun digits :: "string \<Rightarrow> nat \<Rightarrow> nat" where
  "digits [] acc = acc"
| "digits (c # cs) acc =
     (if 48 \<le> (of_char c :: nat) \<and> (of_char c :: nat) \<le> 57
      then digits cs (10 * acc + ((of_char c :: nat) - 48)) else acc)"

definition decimal_atoi :: "string \<Rightarrow> int" where
  "decimal_atoi s =
     (case dropWhile (\<lambda>c. c = CHR '' '') s of
        [] \<Rightarrow> 0
      | c # cs \<Rightarrow>
          (if c = CHR ''-'' then - int (digits cs 0)
           else if c = CHR ''+'' then int (digits cs 0)
           else int (digits (c # cs) 0)))"

text \<open>
  An inheritance relation for the concrete environments: every class derives from
  \<open>std::exception\<close>, and \<open>CommandException\<close> from \<open>CommandArgBaseException\<close>.
\<close>

fun sample_derives :: "exn_class \<Rightarrow> exn_class \<Rightarrow> bool" where
  "sample_derives CommandException CommandArgBaseException = True"
| "sample_derives CommandException std_exception = True"
| "sample_derives CommandArgBaseException std_exception = True"
| "sample_derives LogServiceProxyException std_exception = True"
| "sample_derives (OtherException n) std_exception = True"
| "sample_derives _ _ = False"

text \<open>Started as root, release build, every collaborator call succeeds.\<close>

definition env_root :: env where
  "env_root =
     \<lparr>getegid = 0, geteuid = 0, capng_change_id = 0, throws = (\<lambda>_. None),
      derives = sample_derives, atoi = decimal_atoi, AttachInterface_ptr = True,
      DEBUG_OPTIONS = False\<rparr>"

text \<open>The same, but \<open>capng_change_id\<close> reports the failure \<open>-1\<close>.\<close>

definition env_restrict_fails :: env where
  "env_restrict_fails = env_root\<lparr>capng_change_id := - 1\<rparr>"

text \<open>The same as \<open>env_root\<close>, but started by the user and group 1000.\<close>

definition env_user :: env where
  "env_user = env_root\<lparr>getegid := 1000, geteuid := 1000\<rparr>"

text \<open>
  The same as \<open>env_root\<close>, but the service's \<open>Setup()\<close> throws an exception of
  some other class (one derived from \<open>std::exception\<close> only).
\<close>

definition env_setup_throws :: env where
  "env_setup_throws =
     env_root\<lparr>throws := (\<lambda>a. if a = Setup then Some (OtherException 0) else None)\<rparr>"

text \<open>
  The same as \<open>env_root\<close>, but attaching to the log relay throws a
  \<open>LogServiceProxyException\<close>, in either file.
\<close>

definition env_attach_throws :: env where
  "env_attach_throws =
     env_root\<lparr>throws :=
       (\<lambda>a. if a = AttachInterface OpenVPN3DBus_interf_configuration
                 \<or> a = Attach OpenVPN3DBus_interf_netcfg
              then Some LogServiceProxyException else None)\<rparr>"

text \<open>No option given on the command line.\<close>

definition no_args :: parsed_args where
  "no_args =
     \<lparr>opt_log_level = None, opt_log_file = None, opt_colour = False,
      opt_signal_broadcast = False, opt_idle_exit = None, opt_state_dir = None,
      opt_disable_capabilities = False, opt_run_as_root = False\<rparr>"

text \<open>\<open>--idle-exit 0\<close>.\<close>

definition args_idle_exit_0 :: parsed_args where
  "args_idle_exit_0 = no_args\<lparr>opt_idle_exit := Some ''0''\<rparr>"

text \<open>\<open>--signal-broadcast\<close>.\<close>

definition args_broadcast :: parsed_args where
  "args_broadcast = no_args\<lparr>opt_signal_broadcast := True\<rparr>"

text \<open>\<open>--log-file /var/log/openvpn3-configmgr.log\<close>.\<close>

definition args_log_file :: parsed_args where
  "args_log_file = no_args\<lparr>opt_log_file := Some ''/var/log/openvpn3-configmgr.log''\<rparr>"

section \<open>The idle watchdog\<close>

text \<open>
  Modelled from the spec: the class \<open>IdleCheck\<close>, which both files construct, hand
  to the service and enable, is declared in a header that is not among the two files, and
  so is the loop's reaction to its request. The definitions of this section follow the
  specification's data model (IdleWatchdogState, ShutdownRequest), its watchdog
  operations and algorithm, and its shutdown state machine.
\<close>

record IdleWatchdogState =
  enabled :: bool
  last_activity :: nat
  idle_threshold :: nat
  poll_interval :: nat
  running :: bool

datatype ShutdownRequest = no_request | signal_terminate | signal_interrupt | idle_timeout

datatype lifecycle = Running | Stopping | Stopped

record supervisor =
  watchdog :: "IdleWatchdogState option"
  lifecycle_state :: lifecycle
  shutdown_request :: ShutdownRequest
  termination_requests :: nat

text \<open>Modelled from the spec: a fresh watchdog is disabled, its thread not running.\<close>

definition new_watchdog :: "nat \<Rightarrow> nat \<Rightarrow> IdleWatchdogState" where
  "new_watchdog t p =
     \<lparr>enabled = False, last_activity = 0, idle_threshold = t, poll_interval = p,
      running = False\<rparr>"

text \<open>Modelled from the spec: \<open>enable()\<close> starts the poll thread; no-op if already enabled.\<close>

definition enable :: "IdleWatchdogState \<Rightarrow> IdleWatchdogState" where
  "enable w = (if enabled w then w else w\<lparr>enabled := True, running := True\<rparr>)"

text \<open>Modelled from the spec: \<open>disable()\<close> signals the poll thread to stop at its next tick.\<close>

definition disable :: "IdleWatchdogState \<Rightarrow> IdleWatchdogState" where
  "disable w = w\<lparr>enabled := False\<rparr>"

text \<open>Modelled from the spec: after \<open>join()\<close> the poll thread has fully exited.\<close>

definition join :: "IdleWatchdogState \<Rightarrow> IdleWatchdogState" where
  "join w = w\<lparr>running := False\<rparr>"

text \<open>Modelled from the spec: the payload marks the daemon busy at time \<open>ts\<close>.\<close>

definition activity_pulse :: "nat \<Rightarrow> IdleWatchdogState \<Rightarrow> IdleWatchdogState" where
  "activity_pulse ts w = w\<lparr>last_activity := ts\<rparr>"

text \<open>
  Modelled from the spec: one tick of the poll thread at time \<open>now\<close>. A thread that
  has exited does nothing; a disabled watchdog stops; otherwise, when the daemon has been
  non-busy for at least the threshold, the thread requests termination (the \<open>True\<close>)
  and stops polling.
\<close>

definition poll :: "nat \<Rightarrow> IdleWatchdogState \<Rightarrow> IdleWatchdogState \<times> bool" where
  "poll now w =
     (if \<not> running w then (w, False)
      else if \<not> enabled w then (w\<lparr>running := False\<rparr>, False)
      else if idle_threshold w \<le> now - last_activity w then (w\<lparr>running := False\<rparr>, True)
      else (w, False))"

text \<open>
  Modelled from the spec: a shutdown request is recorded once and moves the loop to
  \<open>Stopping\<close>; a second request is a no-op.
\<close>

definition request_stop :: "ShutdownRequest \<Rightarrow> supervisor \<Rightarrow> supervisor" where
  "request_stop r s =
     (if shutdown_request s = no_request
      then s\<lparr>lifecycle_state := Stopping, shutdown_request := r\<rparr> else s)"

text \<open>
  Modelled from the spec: what happens while the loop runs, in the order in which the
  shared state sees it: an activity pulse of the payload, or a tick of the poll thread.
\<close>

datatype event = Pulse nat | Poll nat

fun step :: "event \<Rightarrow> supervisor \<Rightarrow> supervisor" where
  "step (Pulse ts) s = s\<lparr>watchdog := map_option (activity_pulse ts) (watchdog s)\<rparr>"
| "step (Poll now) s =
     (case watchdog s of
        None \<Rightarrow> s
      | Some w \<Rightarrow>
          (case poll now w of
             (w', fire) \<Rightarrow>
               (if fire
                then request_stop idle_timeout
                       (s\<lparr>watchdog := Some w',
                          termination_requests := termination_requests s + 1\<rparr>)
                else s\<lparr>watchdog := Some w'\<rparr>)))"

text \<open>
  Modelled from the spec: the supervisor constructs and enables the watchdog only for a
  threshold above zero (as lines 105-124 of the configuration manager and 174-187 of the
  network service do).
\<close>

definition bootstrap :: "nat \<Rightarrow> nat \<Rightarrow> supervisor" where
  "bootstrap t p =
     \<lparr>watchdog = (if t > 0 then Some (enable (new_watchdog t p)) else None),
      lifecycle_state = Running, shutdown_request = no_request,
      termination_requests = 0\<rparr>"

text \<open>Modelled from the spec: teardown disables and joins the watchdog and ends in \<open>Stopped\<close>.\<close>

definition teardown :: "supervisor \<Rightarrow> supervisor" where
  "teardown s =
     (if lifecycle_state s = Stopping
      then s\<lparr>watchdog := map_option (\<lambda>w. join (disable w)) (watchdog s),
             lifecycle_state := Stopped\<rparr>
      else s)"

definition supervise :: "nat \<Rightarrow> nat \<Rightarrow> event list \<Rightarrow> supervisor" where
  "supervise t p evs = teardown (fold step evs (bootstrap t p))"

text \<open>
  An event that does not mark the daemon busy within the \<open>t\<close> time units before
  \<open>now\<close>: a pulse at least \<open>t\<close> old, or a tick of the poll thread.
\<close>

definition quiet_event :: "nat \<Rightarrow> nat \<Rightarrow> event \<Rightarrow> bool" where
  "quiet_event t now e = (case e of Pulse ts \<Rightarrow> ts + t \<le> now | Poll _ \<Rightarrow> True)"

text \<open>
  At the tick \<open>now\<close>, no pulse received so far (\<open>pre\<close>) has marked the daemon busy
  within the last \<open>t\<close> time units, and at least \<open>t\<close> has passed since the start at 0.
\<close>

definition quiet_for :: "nat \<Rightarrow> event list \<Rightarrow> nat \<Rightarrow> bool" where
  "quiet_for t pre now = (t \<le> now \<and> list_all (quiet_event t now) pre)"

text \<open>
  Two sets of states of the supervisor: the watchdog is polling and has seen no activity
  for \<open>t\<close> at the time \<open>now\<close>; the watchdog has made its one request and stopped.
\<close>

definition armed :: "nat \<Rightarrow> nat \<Rightarrow> supervisor \<Rightarrow> bool" where
  "armed t now s =
     (case watchdog s of
        None \<Rightarrow> False
      | Some w \<Rightarrow>
          enabled w \<and> running w \<and> idle_threshold w = t \<and> last_activity w + t \<le> now
          \<and> termination_requests s = 0 \<and> lifecycle_state s = Running
          \<and> shutdown_request s = no_request)"

definition fired :: "supervisor \<Rightarrow> bool" where
  "fired s =
     (case watchdog s of
        None \<Rightarrow> False
      | Some w \<Rightarrow>
          \<not> running w \<and> termination_requests s = 1 \<and> lifecycle_state s = Stopping
          \<and> shutdown_request s = idle_timeout)"

section \<open>Traces of \<open>exec\<close> and of the two command functions\<close>

lemma exec_prefix: "prefix (fst (exec env ss)) (actions_of ss)"
  by (induction env ss rule: exec.induct) (auto split: prod.splits option.splits)

lemma exec_None: "snd (exec env ss) = None \<Longrightarrow> fst (exec env ss) = actions_of ss"
  by (induction env ss rule: exec.induct) (auto split: prod.splits option.splits)

lemma precedes_append1: "b \<in> set p \<Longrightarrow> precedes a b (p @ s) = precedes a b p"
  by (induction p) auto

lemma precedes_prefix:
  "prefix p xs \<Longrightarrow> b \<in> set p \<Longrightarrow> precedes a b xs \<Longrightarrow> precedes a b p"
  by (auto simp: prefix_def precedes_append1)

lemma precedes_truncation:
  assumes "truncation tr full" and "b \<in> set tr" and "b \<noteq> DBusDestroy"
    and "b \<noteq> PrintFatalError" and "precedes a b full"
  shows "precedes a b tr"
proof -
  from assms(1) obtain p s where ps: "prefix p full" "tr = p @ s"
    "set s \<subseteq> {DBusDestroy, PrintFatalError}"
    by (auto simp: truncation_def)
  with assms(2-4) have "b \<in> set p" by auto
  then show ?thesis using ps assms(5) by (simp add: precedes_append1 precedes_prefix)
qed

lemma absent_truncation:
  assumes "truncation tr full" and "a \<noteq> DBusDestroy" and "a \<noteq> PrintFatalError"
    and "a \<notin> set full"
  shows "a \<notin> set tr"
  using assms unfolding truncation_def by (auto dest!: set_mono_prefix)

lemma truncation_prefix: "prefix p full \<Longrightarrow> truncation p full"
  unfolding truncation_def by (rule exI [of _ p], rule exI [of _ "[]"]) simp

lemma truncation_append: "truncation tr full \<Longrightarrow> truncation (xs @ tr) (xs @ full)"
proof -
  assume "truncation tr full"
  then obtain p s where ps: "prefix p full" "tr = p @ s"
    "set s \<subseteq> {DBusDestroy, PrintFatalError}"
    by (auto simp: truncation_def)
  then have "prefix (xs @ p) (xs @ full)" "xs @ tr = (xs @ p) @ s" by simp_all
  with ps(3) show ?thesis unfolding truncation_def by blast
qed

lemma truncation_snoc:
  assumes "truncation tr full" and "a = DBusDestroy \<or> a = PrintFatalError"
  shows "truncation (tr @ [a]) full"
proof -
  from assms(1) obtain p s where ps: "prefix p full" "tr = p @ s"
    "set s \<subseteq> {DBusDestroy, PrintFatalError}"
    by (auto simp: truncation_def)
  then have "tr @ [a] = p @ (s @ [a])" "set (s @ [a]) \<subseteq> {DBusDestroy, PrintFatalError}"
    using assms(2) by auto
  with ps(1) show ?thesis unfolding truncation_def by blast
qed

lemma scope_DBus_trace:
  "truncation (fst (scope_DBus env body)) (DBusNew # actions_of body)"
proof (cases "throws env DBusNew")
  case (Some e)
  then show ?thesis by (simp add: scope_DBus_def truncation_prefix)
next
  case None
  obtain t r where tr: "exec env body = (t, r)" by (cases "exec env body")
  have "prefix t (actions_of body)" using exec_prefix [of env body] tr by simp
  then have "truncation ([DBusNew] @ t) ([DBusNew] @ actions_of body)"
    by (intro truncation_append truncation_prefix)
  then have "truncation (([DBusNew] @ t) @ [DBusDestroy]) ([DBusNew] @ actions_of body)"
    by (rule truncation_snoc) simp
  then show ?thesis using None tr by (simp add: scope_DBus_def)
qed

lemma scope_DBus_None:
  assumes "snd (scope_DBus env body) = None"
  shows "fst (scope_DBus env body) = DBusNew # actions_of body @ [DBusDestroy]"
proof -
  obtain t r where tr: "exec env body = (t, r)" by (cases "exec env body")
  from assms tr have n: "throws env DBusNew = None" "r = None"
    by (auto simp: scope_DBus_def split: option.splits)
  then have "t = actions_of body" using exec_None [of env body] tr by simp
  then show ?thesis using n tr by (simp add: scope_DBus_def)
qed

lemma config_manager_trace:
  "truncation (fst (config_manager env args)) (config_manager_calls env args)"
proof -
  let ?pro = "config_manager_prologue args"
  obtain t r where tr: "exec env ?pro = (t, r)" by (cases "exec env ?pro")
  have pre: "prefix t (actions_of ?pro)" using exec_prefix [of env ?pro] tr by simp
  show ?thesis
  proof (cases r)
    case (Some e)
    have "prefix t (config_manager_calls env args)"
      using pre by (simp add: config_manager_calls_def)
    then show ?thesis using tr Some
      by (simp add: config_manager_def truncation_prefix)
  next
    case None
    then have "t = actions_of ?pro" using exec_None [of env ?pro] tr by simp
    then show ?thesis using tr None scope_DBus_trace [of env "config_manager_body env args"]
      by (auto simp: config_manager_def config_manager_calls_def truncation_append
          split: prod.splits option.splits)
  qed
qed

lemma config_manager_returns:
  assumes "snd (config_manager env args) = Inr rc"
  shows "fst (config_manager env args) = config_manager_calls env args @ [DBusDestroy]"
    and "rc = 0"
proof -
  let ?pro = "config_manager_prologue args"
  obtain t r where tr: "exec env ?pro = (t, r)" by (cases "exec env ?pro")
  obtain t' r' where tr': "scope_DBus env (config_manager_body env args) = (t', r')"
    by (cases "scope_DBus env (config_manager_body env args)")
  from assms tr tr' have n: "r = None" "r' = None" "rc = 0"
    by (auto simp: config_manager_def split: option.splits)
  have "t = actions_of ?pro" using exec_None [of env ?pro] tr n by simp
  moreover have "t' = DBusNew # actions_of (config_manager_body env args) @ [DBusDestroy]"
    using scope_DBus_None [of env "config_manager_body env args"] tr' n by simp
  ultimately show "fst (config_manager env args) = config_manager_calls env args @ [DBusDestroy]"
    using tr tr' n by (simp add: config_manager_def config_manager_calls_def)
  show "rc = 0" by (rule n)
qed

lemma netcfg_main_trace:
  "truncation (fst (netcfg_main env args)) (netcfg_main_calls env args)"
proof -
  let ?pro = "netcfg_main_prologue env args"
  let ?body = "netcfg_main_body env args"
  obtain t r where tr: "exec env ?pro = (t, r)" by (cases "exec env ?pro")
  have pre: "prefix t (actions_of ?pro)" using exec_prefix [of env ?pro] tr by simp
  show ?thesis
  proof (cases r)
    case (Some e)
    have "prefix t (netcfg_main_calls env args)"
      using pre by (simp add: netcfg_main_calls_def)
    then show ?thesis using tr Some
      by (simp add: netcfg_main_def truncation_prefix)
  next
    case None
    obtain t' r' where tr': "scope_DBus env ?body = (t', r')"
      by (cases "scope_DBus env ?body")
    have t: "t = actions_of ?pro" using exec_None [of env ?pro] tr None by simp
    have "truncation t' (DBusNew # actions_of ?body)"
      using scope_DBus_trace [of env ?body] tr' by simp
    then have 1: "truncation (t @ t') (netcfg_main_calls env args)"
      unfolding t netcfg_main_calls_def by (rule truncation_append)
    then have 2: "truncation ((t @ t') @ [PrintFatalError]) (netcfg_main_calls env args)"
      by (rule truncation_snoc) simp
    show ?thesis using tr tr' None 1 2
      by (auto simp: netcfg_main_def split: option.splits)
  qed
qed

lemma netcfg_main_returns_0:
  assumes "snd (netcfg_main env args) = Inr 0"
  shows "fst (netcfg_main env args) = netcfg_main_calls env args @ [DBusDestroy]"
proof -
  let ?pro = "netcfg_main_prologue env args"
  let ?body = "netcfg_main_body env args"
  obtain t r where tr: "exec env ?pro = (t, r)" by (cases "exec env ?pro")
  obtain t' r' where tr': "scope_DBus env ?body = (t', r')"
    by (cases "scope_DBus env ?body")
  from assms tr tr' have n: "r = None" "r' = None"
    by (auto simp: netcfg_main_def split: option.splits if_splits)
  have "t = actions_of ?pro" using exec_None [of env ?pro] tr n by simp
  moreover have "t' = DBusNew # actions_of ?body @ [DBusDestroy]"
    using scope_DBus_None [of env ?body] tr' n by simp
  ultimately show ?thesis
    using tr tr' n by (simp add: netcfg_main_def netcfg_main_calls_def)
qed

lemma precedes_in_set: "precedes a b xs \<Longrightarrow> a \<in> set xs \<and> b \<in> set xs"
  by (induction xs) (auto split: if_splits)

lemma present_truncation:
  assumes "truncation tr full" and "a \<in> set tr" and "a \<noteq> DBusDestroy"
    and "a \<noteq> PrintFatalError"
  shows "a \<in> set full"
  using absent_truncation [OF assms(1,3,4)] assms(2) by blast

section \<open>Privilege preconditions of the network service\<close>

text \<open>
  Claim C6: the network-configuration daemon must be started as root. When the effective
  group id or the effective user id is not 0, \<open>netcfg_main\<close> throws at once: it has
  made no call at all (no log sink, no capability change, no bus connection), and
  \<open>main\<close> prints the message and exits with code 2.
\<close>

theorem netcfg_main_requires_root:
  assumes "0 \<noteq> getegid env \<or> 0 \<noteq> geteuid env"
  shows "netcfg_main env args = ([], Inl CommandException)
       \<and> netcfg_service_main env (Args args) = ([PrintError], Exit 2)"
  using assms
  by (simp add: netcfg_service_main_def netcfg_handlers_def catches_def
      netcfg_main_def netcfg_main_prologue_def)

theorem netcfg_main_requires_root_witness:
  "geteuid env_user = 1000
   \<and> netcfg_main env_user no_args = ([], Inl CommandException)
   \<and> netcfg_service_main env_user (Args no_args) = ([PrintError], Exit 2)"
proof -
  have h: "0 \<noteq> getegid env_user \<or> 0 \<noteq> geteuid env_user"
    by (simp add: env_user_def env_root_def)
  have "geteuid env_user = 1000" by (simp add: env_user_def env_root_def)
  then show ?thesis using netcfg_main_requires_root [OF h, of no_args] by simp
qed

lemma netcfg_prologue_restrict_fails:
  assumes "capng_change_id env \<noteq> 0"
    and "exec env (netcfg_main_prologue env args) = (t, r)"
    and "CapngChangeId [CAPNG_DROP_SUPP_GRP, CAPNG_CLEAR_BOUNDING] \<in> set t"
  shows "r = Some CommandException \<and> MainLoopRun \<notin> set t \<and> DBusNew \<notin> set t"
  using assms
  by (auto simp: netcfg_main_prologue_def open_log_def drop_root_ng_def Let_def
      split: option.splits if_splits prod.splits)

lemma CapngChangeId_notin_body:
  "CapngChangeId fl \<notin> set (DBusNew # actions_of (netcfg_main_body env args))"
  by (simp add: netcfg_main_body_def Let_def)

text \<open>
  Claim C5: when \<open>capng_change_id\<close> is called and returns a status other than 0, the
  network-configuration daemon aborts its startup: \<open>netcfg_main\<close> ends with the
  \<open>CommandException\<close> of \<open>drop_root_ng\<close>, the bus is never connected, the main loop
  never runs, and the process exits with code 2.
\<close>

theorem restrict_failure_is_fatal:
  assumes "capng_change_id env \<noteq> 0"
    and "CapngChangeId [CAPNG_DROP_SUPP_GRP, CAPNG_CLEAR_BOUNDING]
           \<in> set (fst (netcfg_main env args))"
  shows "snd (netcfg_main env args) = Inl CommandException
       \<and> MainLoopRun \<notin> set (fst (netcfg_main env args))
       \<and> DBusNew \<notin> set (fst (netcfg_main env args))
       \<and> snd (netcfg_service_main env (Args args)) = Exit 2"
proof -
  let ?c = "CapngChangeId [CAPNG_DROP_SUPP_GRP, CAPNG_CLEAR_BOUNDING]"
  let ?pro = "netcfg_main_prologue env args"
  let ?body = "netcfg_main_body env args"
  obtain t r where tr: "exec env ?pro = (t, r)" by (cases "exec env ?pro")
  obtain t' r' where tr': "scope_DBus env ?body = (t', r')" by (cases "scope_DBus env ?body")
  have nb: "?c \<notin> set t'"
    using absent_truncation [OF scope_DBus_trace [of env ?body] _ _ CapngChangeId_notin_body]
      tr' by simp
  have "?c \<in> set t"
  proof (cases r)
    case (Some e)
    then show ?thesis using assms(2) tr by (simp add: netcfg_main_def)
  next
    case None
    then show ?thesis using assms(2) tr tr' nb
      by (auto simp: netcfg_main_def split: option.splits if_splits)
  qed
  from netcfg_prologue_restrict_fails [OF assms(1) tr this]
  have r: "r = Some CommandException" "MainLoopRun \<notin> set t" "DBusNew \<notin> set t" by simp_all
  then have "netcfg_main env args = (t, Inl CommandException)"
    using tr by (simp add: netcfg_main_def)
  then show ?thesis using r
    by (simp add: netcfg_service_main_def netcfg_handlers_def catches_def)
qed

theorem restrict_failure_is_fatal_witness:
  "capng_change_id env_restrict_fails = - 1
   \<and> fst (netcfg_main env_restrict_fails no_args)
       = [CapngClear, CapngUpdateAdd [CAPNG_EFFECTIVE, CAPNG_PERMITTED] CAP_NET_ADMIN,
          LookupUid, LookupGid, CapngChangeId [CAPNG_DROP_SUPP_GRP, CAPNG_CLEAR_BOUNDING],
          PrintResult (- 1)]
   \<and> snd (netcfg_main env_restrict_fails no_args) = Inl CommandException
   \<and> MainLoopRun \<notin> set (fst (netcfg_main env_restrict_fails no_args))
   \<and> snd (netcfg_service_main env_restrict_fails (Args no_args)) = Exit 2"
proof -
  have t: "fst (netcfg_main env_restrict_fails no_args)
       = [CapngClear, CapngUpdateAdd [CAPNG_EFFECTIVE, CAPNG_PERMITTED] CAP_NET_ADMIN,
          LookupUid, LookupGid, CapngChangeId [CAPNG_DROP_SUPP_GRP, CAPNG_CLEAR_BOUNDING],
          PrintResult (- 1)]"
    by (simp add: netcfg_main_def netcfg_main_prologue_def open_log_def drop_root_ng_def
        env_restrict_fails_def env_root_def no_args_def)
  have c: "capng_change_id env_restrict_fails = - 1"
    by (simp add: env_restrict_fails_def env_root_def)
  show ?thesis
    using restrict_failure_is_fatal [of env_restrict_fails no_args] t c by simp
qed

section \<open>Calls before and after \<open>dbus\<close> is declared\<close>

lemma filter_truncation:
  assumes "truncation tr full" and "\<not> P DBusDestroy" and "\<not> P PrintFatalError"
    and "filter P full = []"
  shows "filter P tr = []"
proof -
  from assms(1) obtain p s where ps: "prefix p full" "tr = p @ s"
    "set s \<subseteq> {DBusDestroy, PrintFatalError}"
    by (auto simp: truncation_def)
  have "set p \<subseteq> set full" using ps(1) by (rule set_mono_prefix)
  then have "filter P p = []" using assms(4) by (auto simp: filter_empty_conv)
  moreover have "filter P s = []" using ps(3) assms(2,3) by (auto simp: filter_empty_conv)
  ultimately show ?thesis using ps(2) by simp
qed

lemma precedes_append2:
  "a \<notin> set xs \<Longrightarrow> b \<notin> set xs \<Longrightarrow> precedes a b (xs @ ys) = precedes a b ys"
  by (induction xs) auto

lemma word32_zero_or_pos: "(w :: 32 word) = 0 \<or> 0 < w"
  using word_gt_0 [of w] by auto

lemma open_log_calls: "list_all is_prologue_call (actions_of (open_log args))"
  by (simp add: open_log_def Let_def is_prologue_call_def split: option.splits)

lemma actions_of_append_subset:
  "set (actions_of (xs @ ys)) \<subseteq> set (actions_of xs) \<union> set (actions_of ys)"
  by (induction xs rule: actions_of.induct) auto

lemma list_all_actions_of_append:
  "list_all P (actions_of xs) \<Longrightarrow> list_all P (actions_of ys) \<Longrightarrow> list_all P (actions_of (xs @ ys))"
  using actions_of_append_subset [of xs ys] by (auto simp: list_all_iff)

lemma config_prologue_calls:
  "list_all is_prologue_call (actions_of (config_manager_prologue args))"
  unfolding config_manager_prologue_def
  by (intro list_all_actions_of_append open_log_calls) (simp add: is_prologue_call_def)

lemma drop_root_ng_calls: "list_all is_prologue_call (actions_of (drop_root_ng env))"
  by (simp add: drop_root_ng_def Let_def is_prologue_call_def)

lemma netcfg_prologue_calls:
  "list_all is_prologue_call (actions_of (netcfg_main_prologue env args))"
  unfolding netcfg_main_prologue_def
  by (intro list_all_actions_of_append open_log_calls)
     (simp_all add: drop_root_ng_calls, simp_all add: is_prologue_call_def)

lemma config_not_prologue:
  "\<not> is_prologue_call a \<Longrightarrow> a \<notin> set (actions_of (config_manager_prologue args))"
  using config_prologue_calls [of args] by (auto simp: list_all_iff)

lemma netcfg_not_prologue:
  "\<not> is_prologue_call a \<Longrightarrow> a \<notin> set (actions_of (netcfg_main_prologue env args))"
  using netcfg_prologue_calls [of env args] by (auto simp: list_all_iff)

lemma config_calls_precedes:
  assumes "\<not> is_prologue_call a" and "\<not> is_prologue_call b"
  shows "precedes a b (config_manager_calls env args)
       = precedes a b (DBusNew # actions_of (config_manager_body env args))"
  unfolding config_manager_calls_def
  by (rule precedes_append2) (simp_all add: assms config_not_prologue)

lemma netcfg_calls_precedes:
  assumes "\<not> is_prologue_call a" and "\<not> is_prologue_call b"
  shows "precedes a b (netcfg_main_calls env args)
       = precedes a b (DBusNew # actions_of (netcfg_main_body env args))"
  unfolding netcfg_main_calls_def
  by (rule precedes_append2) (simp_all add: assms netcfg_not_prologue)

lemma no_watchdog_in_prologue [simp]: "is_watchdog_call a \<Longrightarrow> \<not> is_prologue_call a"
  by (cases a) (simp_all add: is_watchdog_call_def is_prologue_call_def)

lemma no_relay_in_prologue [simp]: "is_relay_call a \<Longrightarrow> \<not> is_prologue_call a"
  by (cases a) (simp_all add: is_relay_call_def is_prologue_call_def)

lemma filter_calls_body:
  assumes "\<And>a. P a \<Longrightarrow> \<not> is_prologue_call a"
  shows "filter P (config_manager_calls env args)
           = filter P (DBusNew # actions_of (config_manager_body env args))"
    and "filter P (netcfg_main_calls env args)
           = filter P (DBusNew # actions_of (netcfg_main_body env args))"
proof -
  have "filter P (actions_of (config_manager_prologue args)) = []"
    using assms config_prologue_calls [of args] by (auto simp: filter_empty_conv list_all_iff)
  then show "filter P (config_manager_calls env args)
           = filter P (DBusNew # actions_of (config_manager_body env args))"
    by (simp add: config_manager_calls_def)
  have "filter P (actions_of (netcfg_main_prologue env args)) = []"
    using assms netcfg_prologue_calls [of env args]
    by (auto simp: filter_empty_conv list_all_iff)
  then show "filter P (netcfg_main_calls env args)
           = filter P (DBusNew # actions_of (netcfg_main_body env args))"
    by (simp add: netcfg_main_calls_def)
qed


lemma config_body_idle_zero:
  assumes "idle_wait_min env 3 args = 0"
  shows "filter is_watchdog_call (DBusNew # actions_of (config_manager_body env args)) = []"
    and "precedes (SignalAdd SIGINT) MainLoopRun
           (DBusNew # actions_of (config_manager_body env args))"
    and "precedes (SignalAdd SIGTERM) MainLoopRun
           (DBusNew # actions_of (config_manager_body env args))"
  using assms
  by (simp_all add: config_manager_body_def Let_def is_watchdog_call_def split: option.splits)

lemma config_body_idle_pos:
  assumes "0 < idle_wait_min env 3 args"
  shows "precedes (IdleCheckNew (unat (idle_wait_min env 3 args))) EnableIdleCheck
           (DBusNew # actions_of (config_manager_body env args))"
    and "precedes EnableIdleCheck IdleEnable
           (DBusNew # actions_of (config_manager_body env args))"
    and "precedes IdleEnable MainLoopRun
           (DBusNew # actions_of (config_manager_body env args))"
    and "SignalAdd sig \<notin> set (DBusNew # actions_of (config_manager_body env args))"
  using assms
  by (simp_all add: config_manager_body_def Let_def split: option.splits)

lemma netcfg_body_idle_zero:
  assumes "idle_wait_min env 5 args = 0"
  shows "filter is_watchdog_call (DBusNew # actions_of (netcfg_main_body env args)) = []"
  using assms
  by (simp_all add: netcfg_main_body_def Let_def is_watchdog_call_def split: option.splits)

lemma netcfg_body_signals:
  shows "precedes (SignalAdd SIGINT) MainLoopRun
           (DBusNew # actions_of (netcfg_main_body env args))"
    and "precedes (SignalAdd SIGTERM) MainLoopRun
           (DBusNew # actions_of (netcfg_main_body env args))"
  by (simp_all add: netcfg_main_body_def Let_def split: option.splits)

lemma netcfg_body_idle_pos:
  assumes "0 < idle_wait_min env 5 args"
  shows "precedes (IdleCheckNew (unat (idle_wait_min env 5 args))) EnableIdleCheck
           (DBusNew # actions_of (netcfg_main_body env args))"
    and "precedes EnableIdleCheck IdleEnable
           (DBusNew # actions_of (netcfg_main_body env args))"
    and "precedes IdleEnable MainLoopRun
           (DBusNew # actions_of (netcfg_main_body env args))"
  using assms
  by (simp_all add: netcfg_main_body_def Let_def split: option.splits)

lemma body_broadcast:
  assumes "opt_signal_broadcast args"
  shows "filter is_relay_call (DBusNew # actions_of (config_manager_body env args)) = []"
    and "filter is_relay_call (DBusNew # actions_of (netcfg_main_body env args)) = []"
  using assms
  by (simp_all add: config_manager_body_def netcfg_main_body_def Let_def is_relay_call_def
      split: option.splits)

lemma body_unicast:
  assumes "\<not> opt_signal_broadcast args"
  shows "precedes (AttachInterface OpenVPN3DBus_interf_configuration) MainLoopRun
           (DBusNew # actions_of (config_manager_body env args))"
    and "AttachInterface_ptr env \<Longrightarrow>
         precedes MainLoopRun (Detach OpenVPN3DBus_interf_configuration)
           (DBusNew # actions_of (config_manager_body env args) @ [DBusDestroy])"
    and "precedes LogServiceProxyNew (Attach OpenVPN3DBus_interf_netcfg)
           (DBusNew # actions_of (netcfg_main_body env args))"
    and "precedes (Attach OpenVPN3DBus_interf_netcfg) MainLoopRun
           (DBusNew # actions_of (netcfg_main_body env args))"
    and "precedes MainLoopRun (Detach OpenVPN3DBus_interf_netcfg)
           (DBusNew # actions_of (netcfg_main_body env args) @ [DBusDestroy])"
  using assms
  by (simp_all add: config_manager_body_def netcfg_main_body_def Let_def split: option.splits)

section \<open>Capabilities of the network service\<close>

lemma netcfg_calls_capability_first:
  assumes "\<not> DEBUG_OPTIONS env"
    and "CapngChangeId fl \<in> set (netcfg_main_calls env args)"
  shows "precedes (CapngUpdateAdd [CAPNG_EFFECTIVE, CAPNG_PERMITTED] CAP_NET_ADMIN)
           (CapngChangeId fl) (netcfg_main_calls env args)
       \<and> precedes CapngClear
           (CapngUpdateAdd [CAPNG_EFFECTIVE, CAPNG_PERMITTED] CAP_NET_ADMIN)
           (netcfg_main_calls env args)"
  using assms
  by (auto simp: netcfg_main_calls_def netcfg_main_prologue_def open_log_def
      drop_root_ng_def netcfg_main_body_def Let_def split: option.splits if_splits)

text \<open>
  Claim C9: in the release build (no \<open>DEBUG_OPTIONS\<close>) of the network-configuration
  daemon, whenever \<open>capng_change_id\<close> is called, \<open>CAP_NET_ADMIN\<close> has been added
  to the effective and the permitted set before it, on capability sets cleared before that.
\<close>

theorem capability_added_before_identity_switch:
  assumes "\<not> DEBUG_OPTIONS env"
    and "CapngChangeId fl \<in> set (fst (netcfg_main env args))"
  shows "precedes (CapngUpdateAdd [CAPNG_EFFECTIVE, CAPNG_PERMITTED] CAP_NET_ADMIN)
           (CapngChangeId fl) (fst (netcfg_main env args))
       \<and> precedes CapngClear
           (CapngUpdateAdd [CAPNG_EFFECTIVE, CAPNG_PERMITTED] CAP_NET_ADMIN)
           (fst (netcfg_main env args))"
proof -
  let ?add = "CapngUpdateAdd [CAPNG_EFFECTIVE, CAPNG_PERMITTED] CAP_NET_ADMIN"
  note tr = netcfg_main_trace [of env args]
  have "CapngChangeId fl \<in> set (netcfg_main_calls env args)"
    using present_truncation [OF tr assms(2)] by simp
  from netcfg_calls_capability_first [OF assms(1) this]
  have full: "precedes ?add (CapngChangeId fl) (netcfg_main_calls env args)"
    "precedes CapngClear ?add (netcfg_main_calls env args)" by simp_all
  have 1: "precedes ?add (CapngChangeId fl) (fst (netcfg_main env args))"
    using precedes_truncation [OF tr assms(2) _ _ full(1)] by simp
  then have "?add \<in> set (fst (netcfg_main env args))" by (simp add: precedes_in_set)
  from precedes_truncation [OF tr this _ _ full(2)] 1 show ?thesis by simp
qed

theorem capability_added_before_identity_switch_witness:
  "\<not> DEBUG_OPTIONS env_root
   \<and> fst (netcfg_main env_root no_args) =
       [CapngClear, CapngUpdateAdd [CAPNG_EFFECTIVE, CAPNG_PERMITTED] CAP_NET_ADMIN,
        LookupUid, LookupGid, CapngChangeId [CAPNG_DROP_SUPP_GRP, CAPNG_CLEAR_BOUNDING],
        CapngApply, DBusNew, DBusConnect, LogServiceProxyNew,
        Attach OpenVPN3DBus_interf_netcfg, PrintVersion, NetworkCfgServiceNew False,
        MainLoopNew, SignalAdd SIGINT, SignalAdd SIGTERM, IdleCheckNew 5,
        IdleSetPollTime 30, EnableIdleCheck, Setup, IdleEnable, MainLoopRun, Usleep 500,
        MainLoopUnref, Detach OpenVPN3DBus_interf_netcfg, IdleDisable, IdleJoin,
        DBusDestroy]
   \<and> precedes (CapngUpdateAdd [CAPNG_EFFECTIVE, CAPNG_PERMITTED] CAP_NET_ADMIN)
        (CapngChangeId [CAPNG_DROP_SUPP_GRP, CAPNG_CLEAR_BOUNDING])
        (fst (netcfg_main env_root no_args))"
proof -
  have t: "fst (netcfg_main env_root no_args) =
       [CapngClear, CapngUpdateAdd [CAPNG_EFFECTIVE, CAPNG_PERMITTED] CAP_NET_ADMIN,
        LookupUid, LookupGid, CapngChangeId [CAPNG_DROP_SUPP_GRP, CAPNG_CLEAR_BOUNDING],
        CapngApply, DBusNew, DBusConnect, LogServiceProxyNew,
        Attach OpenVPN3DBus_interf_netcfg, PrintVersion, NetworkCfgServiceNew False,
        MainLoopNew, SignalAdd SIGINT, SignalAdd SIGTERM, IdleCheckNew 5,
        IdleSetPollTime 30, EnableIdleCheck, Setup, IdleEnable, MainLoopRun, Usleep 500,
        MainLoopUnref, Detach OpenVPN3DBus_interf_netcfg, IdleDisable, IdleJoin,
        DBusDestroy]"
    by (simp add: netcfg_main_def netcfg_main_prologue_def open_log_def drop_root_ng_def
        netcfg_main_body_def scope_DBus_def idle_wait_min_def netcfg_log_level_def logwr_def
        env_root_def no_args_def)
  have d: "\<not> DEBUG_OPTIONS env_root" by (simp add: env_root_def)
  have m: "CapngChangeId [CAPNG_DROP_SUPP_GRP, CAPNG_CLEAR_BOUNDING]
             \<in> set (fst (netcfg_main env_root no_args))"
    by (simp add: t)
  show ?thesis
    using capability_added_before_identity_switch [OF d m] t d by simp
qed

section \<open>The two command functions on concrete inputs\<close>

lemmas run_defs =
  config_manager_def config_manager_prologue_def config_manager_body_def
  netcfg_main_def netcfg_main_prologue_def netcfg_main_body_def drop_root_ng_def
  open_log_def scope_DBus_def idle_wait_min_def cfg_log_level_def netcfg_log_level_def
  logwr_def decimal_atoi_def env_root_def no_args_def args_idle_exit_0_def
  args_broadcast_def

lemma idle_samples:
  "idle_wait_min env_root 3 no_args = 3"
  "idle_wait_min env_root 5 no_args = 5"
  "idle_wait_min env_root 3 args_idle_exit_0 = 0"
  "idle_wait_min env_root 5 args_idle_exit_0 = 0"
  by (simp_all add: run_defs)

lemma config_manager_no_args:
  "config_manager env_root no_args =
     ([PrintVersion, MainLoopNew, DBusNew, DBusConnect, ConfigManagerDBusNew False False,
       AttachInterface OpenVPN3DBus_interf_configuration, SetLogLevel 3, IdleCheckNew 3,
       EnableIdleCheck, Setup, IdleEnable, MainLoopRun, MainLoopUnref,
       Detach OpenVPN3DBus_interf_configuration, IdleDisable, IdleJoin, DBusDestroy],
      Inr 0)"
  by (simp add: run_defs)

lemma config_manager_idle_exit_0:
  "config_manager env_root args_idle_exit_0 =
     ([PrintVersion, MainLoopNew, DBusNew, DBusConnect, ConfigManagerDBusNew False False,
       AttachInterface OpenVPN3DBus_interf_configuration, SetLogLevel 3, SignalAdd SIGINT,
       SignalAdd SIGTERM, Setup, MainLoopRun, MainLoopUnref,
       Detach OpenVPN3DBus_interf_configuration, DBusDestroy],
      Inr 0)"
  by (simp add: run_defs)

lemma config_manager_broadcast:
  "config_manager env_root args_broadcast =
     ([PrintVersion, MainLoopNew, DBusNew, DBusConnect, ConfigManagerDBusNew False True,
       SetLogLevel 3, IdleCheckNew 3, EnableIdleCheck, Setup, IdleEnable, MainLoopRun,
       MainLoopUnref, IdleDisable, IdleJoin, DBusDestroy],
      Inr 0)"
  by (simp add: run_defs)

lemma netcfg_main_no_args:
  "netcfg_main env_root no_args =
     ([CapngClear, CapngUpdateAdd [CAPNG_EFFECTIVE, CAPNG_PERMITTED] CAP_NET_ADMIN,
       LookupUid, LookupGid, CapngChangeId [CAPNG_DROP_SUPP_GRP, CAPNG_CLEAR_BOUNDING],
       CapngApply, DBusNew, DBusConnect, LogServiceProxyNew,
       Attach OpenVPN3DBus_interf_netcfg, PrintVersion, NetworkCfgServiceNew False,
       MainLoopNew, SignalAdd SIGINT, SignalAdd SIGTERM, IdleCheckNew 5,
       IdleSetPollTime 30, EnableIdleCheck, Setup, IdleEnable, MainLoopRun, Usleep 500,
       MainLoopUnref, Detach OpenVPN3DBus_interf_netcfg, IdleDisable, IdleJoin,
       DBusDestroy],
      Inr 0)"
  by (simp add: run_defs)

lemma netcfg_main_idle_exit_0:
  "netcfg_main env_root args_idle_exit_0 =
     ([CapngClear, CapngUpdateAdd [CAPNG_EFFECTIVE, CAPNG_PERMITTED] CAP_NET_ADMIN,
       LookupUid, LookupGid, CapngChangeId [CAPNG_DROP_SUPP_GRP, CAPNG_CLEAR_BOUNDING],
       CapngApply, DBusNew, DBusConnect, LogServiceProxyNew,
       Attach OpenVPN3DBus_interf_netcfg, PrintVersion, NetworkCfgServiceNew False,
       MainLoopNew, SignalAdd SIGINT, SignalAdd SIGTERM, Setup, MainLoopRun, Usleep 500,
       MainLoopUnref, Detach OpenVPN3DBus_interf_netcfg, DBusDestroy],
      Inr 0)"
  by (simp add: run_defs)

lemma netcfg_main_broadcast:
  "netcfg_main env_root args_broadcast =
     ([CapngClear, CapngUpdateAdd [CAPNG_EFFECTIVE, CAPNG_PERMITTED] CAP_NET_ADMIN,
       LookupUid, LookupGid, CapngChangeId [CAPNG_DROP_SUPP_GRP, CAPNG_CLEAR_BOUNDING],
       CapngApply, DBusNew, DBusConnect, PrintVersion, NetworkCfgServiceNew False,
       MainLoopNew, SignalAdd SIGINT, SignalAdd SIGTERM, IdleCheckNew 5,
       IdleSetPollTime 30, EnableIdleCheck, Setup, IdleEnable, MainLoopRun, Usleep 500,
       MainLoopUnref, IdleDisable, IdleJoin, DBusDestroy],
      Inr 0)"
  by (simp add: run_defs)

text \<open>
  Claim C10: the configuration manager registers no \<open>stop_handler\<close> when the idle
  check is in use (idle-exit above 0), and registers it for SIGINT and SIGTERM before the
  main loop runs when idle-exit is 0; the network service registers both before the main
  loop runs, whatever the idle-exit value.
\<close>

theorem stop_handlers_registration:
  "(0 < idle_wait_min env 3 args \<longrightarrow> SignalAdd sig \<notin> set (fst (config_manager env args)))
   \<and> (idle_wait_min env 3 args = 0 \<and> MainLoopRun \<in> set (fst (config_manager env args)) \<longrightarrow>
        precedes (SignalAdd SIGINT) MainLoopRun (fst (config_manager env args))
        \<and> precedes (SignalAdd SIGTERM) MainLoopRun (fst (config_manager env args)))
   \<and> (MainLoopRun \<in> set (fst (netcfg_main env args)) \<longrightarrow>
        precedes (SignalAdd SIGINT) MainLoopRun (fst (netcfg_main env args))
        \<and> precedes (SignalAdd SIGTERM) MainLoopRun (fst (netcfg_main env args)))"
proof (intro conjI impI)
  note c = config_manager_trace [of env args]
  note n = netcfg_main_trace [of env args]
  {
    assume "0 < idle_wait_min env 3 args"
    then have "SignalAdd sig \<notin> set (config_manager_calls env args)"
      using config_body_idle_pos(4) [of env args sig]
      by (simp add: config_manager_calls_def config_not_prologue is_prologue_call_def)
    then show "SignalAdd sig \<notin> set (fst (config_manager env args))"
      using absent_truncation [OF c] by simp
  }
  {
    assume a: "idle_wait_min env 3 args = 0 \<and> MainLoopRun \<in> set (fst (config_manager env args))"
    then have z: "idle_wait_min env 3 args = 0"
      and m: "MainLoopRun \<in> set (fst (config_manager env args))" by simp_all
    show "precedes (SignalAdd SIGINT) MainLoopRun (fst (config_manager env args))"
      using precedes_truncation [OF c m] config_body_idle_zero(2) [OF z]
      by (simp add: config_calls_precedes is_prologue_call_def)
    show "precedes (SignalAdd SIGTERM) MainLoopRun (fst (config_manager env args))"
      using precedes_truncation [OF c m] config_body_idle_zero(3) [OF z]
      by (simp add: config_calls_precedes is_prologue_call_def)
  }
  {
    assume m: "MainLoopRun \<in> set (fst (netcfg_main env args))"
    show "precedes (SignalAdd SIGINT) MainLoopRun (fst (netcfg_main env args))"
      using precedes_truncation [OF n m] netcfg_body_signals(1) [of env args]
      by (simp add: netcfg_calls_precedes is_prologue_call_def)
    show "precedes (SignalAdd SIGTERM) MainLoopRun (fst (netcfg_main env args))"
      using precedes_truncation [OF n m] netcfg_body_signals(2) [of env args]
      by (simp add: netcfg_calls_precedes is_prologue_call_def)
  }
qed

theorem stop_handlers_registration_witness:
  "idle_wait_min env_root 3 no_args = 3
   \<and> SignalAdd SIGINT \<notin> set (fst (config_manager env_root no_args))
   \<and> idle_wait_min env_root 3 args_idle_exit_0 = 0
   \<and> MainLoopRun \<in> set (fst (config_manager env_root args_idle_exit_0))
   \<and> precedes (SignalAdd SIGINT) MainLoopRun (fst (config_manager env_root args_idle_exit_0))
   \<and> precedes (SignalAdd SIGTERM) MainLoopRun (fst (config_manager env_root args_idle_exit_0))
   \<and> MainLoopRun \<in> set (fst (netcfg_main env_root no_args))
   \<and> precedes (SignalAdd SIGINT) MainLoopRun (fst (netcfg_main env_root no_args))
   \<and> precedes (SignalAdd SIGTERM) MainLoopRun (fst (netcfg_main env_root no_args))"
proof -
  have 1: "SignalAdd SIGINT \<notin> set (fst (config_manager env_root no_args))"
    using stop_handlers_registration [of env_root no_args SIGINT]
    by (simp add: idle_samples)
  have m: "MainLoopRun \<in> set (fst (config_manager env_root args_idle_exit_0))"
    by (simp add: config_manager_idle_exit_0)
  have 2: "precedes (SignalAdd SIGINT) MainLoopRun (fst (config_manager env_root args_idle_exit_0))
         \<and> precedes (SignalAdd SIGTERM) MainLoopRun (fst (config_manager env_root args_idle_exit_0))"
    using stop_handlers_registration [of env_root args_idle_exit_0 SIGINT] m
    by (simp add: idle_samples)
  have n: "MainLoopRun \<in> set (fst (netcfg_main env_root no_args))"
    by (simp add: netcfg_main_no_args)
  have 3: "precedes (SignalAdd SIGINT) MainLoopRun (fst (netcfg_main env_root no_args))
         \<and> precedes (SignalAdd SIGTERM) MainLoopRun (fst (netcfg_main env_root no_args))"
    using stop_handlers_registration [of env_root no_args SIGINT] n by blast
  show ?thesis using 1 2 3 m n by (simp add: idle_samples)
qed

section \<open>Idle checker and log relay\<close>

lemma watchdog_order:
  assumes tr: "truncation tr full"
    and m: "MainLoopRun \<in> set tr"
    and 1: "precedes new EnableIdleCheck full"
    and 2: "precedes EnableIdleCheck IdleEnable full"
    and 3: "precedes IdleEnable MainLoopRun full"
  shows "precedes new EnableIdleCheck tr \<and> precedes EnableIdleCheck IdleEnable tr
       \<and> precedes IdleEnable MainLoopRun tr"
proof -
  have c: "precedes IdleEnable MainLoopRun tr"
    using precedes_truncation [OF tr m _ _ 3] by simp
  then have "IdleEnable \<in> set tr" by (simp add: precedes_in_set)
  from precedes_truncation [OF tr this _ _ 2]
  have b: "precedes EnableIdleCheck IdleEnable tr" by simp
  then have "EnableIdleCheck \<in> set tr" by (simp add: precedes_in_set)
  from precedes_truncation [OF tr this _ _ 1]
  have "precedes new EnableIdleCheck tr" by simp
  with b c show ?thesis by simp
qed

text \<open>
  Claim C7: in both daemons, with an idle-exit threshold of 0 no call to the idle checker
  is ever made (it is not constructed, not handed to the service, not enabled, not
  disabled, not joined), and the stop handlers for SIGINT and SIGTERM are registered
  before the main loop runs; with a threshold above 0, a run that reaches the main loop
  has constructed the idle checker with that threshold, handed it to the service and
  enabled it, in this order, before the loop.
\<close>

theorem idle_exit_zero_disables_watchdog:
  "(idle_wait_min env 3 args = 0 \<longrightarrow>
      filter is_watchdog_call (fst (config_manager env args)) = []
      \<and> (MainLoopRun \<in> set (fst (config_manager env args)) \<longrightarrow>
           precedes (SignalAdd SIGINT) MainLoopRun (fst (config_manager env args))
           \<and> precedes (SignalAdd SIGTERM) MainLoopRun (fst (config_manager env args))))
   \<and> (0 < idle_wait_min env 3 args \<and> MainLoopRun \<in> set (fst (config_manager env args)) \<longrightarrow>
        precedes (IdleCheckNew (unat (idle_wait_min env 3 args))) EnableIdleCheck
          (fst (config_manager env args))
        \<and> precedes EnableIdleCheck IdleEnable (fst (config_manager env args))
        \<and> precedes IdleEnable MainLoopRun (fst (config_manager env args)))
   \<and> (idle_wait_min env 5 args = 0 \<longrightarrow>
        filter is_watchdog_call (fst (netcfg_main env args)) = []
        \<and> (MainLoopRun \<in> set (fst (netcfg_main env args)) \<longrightarrow>
             precedes (SignalAdd SIGINT) MainLoopRun (fst (netcfg_main env args))
             \<and> precedes (SignalAdd SIGTERM) MainLoopRun (fst (netcfg_main env args))))
   \<and> (0 < idle_wait_min env 5 args \<and> MainLoopRun \<in> set (fst (netcfg_main env args)) \<longrightarrow>
        precedes (IdleCheckNew (unat (idle_wait_min env 5 args))) EnableIdleCheck
          (fst (netcfg_main env args))
        \<and> precedes EnableIdleCheck IdleEnable (fst (netcfg_main env args))
        \<and> precedes IdleEnable MainLoopRun (fst (netcfg_main env args)))"
proof -
  note c = config_manager_trace [of env args]
  note n = netcfg_main_trace [of env args]
  have nw: "\<not> is_watchdog_call DBusDestroy" "\<not> is_watchdog_call PrintFatalError"
    by (simp_all add: is_watchdog_call_def)
  have c0: "filter is_watchdog_call (fst (config_manager env args)) = []"
    if z: "idle_wait_min env 3 args = 0"
    using filter_truncation [OF c nw] config_body_idle_zero(1) [OF z]
      filter_calls_body(1) [of is_watchdog_call env args] by simp
  have c0s: "precedes (SignalAdd SIGINT) MainLoopRun (fst (config_manager env args))
           \<and> precedes (SignalAdd SIGTERM) MainLoopRun (fst (config_manager env args))"
    if z: "idle_wait_min env 3 args = 0"
      and m: "MainLoopRun \<in> set (fst (config_manager env args))"
    using precedes_truncation [OF c m] config_body_idle_zero(2,3) [OF z]
    by (simp add: config_calls_precedes is_prologue_call_def)
  have c1: "precedes (IdleCheckNew (unat (idle_wait_min env 3 args))) EnableIdleCheck
              (fst (config_manager env args))
          \<and> precedes EnableIdleCheck IdleEnable (fst (config_manager env args))
          \<and> precedes IdleEnable MainLoopRun (fst (config_manager env args))"
    if p: "0 < idle_wait_min env 3 args"
      and m: "MainLoopRun \<in> set (fst (config_manager env args))"
    using config_body_idle_pos(1-3) [OF p]
    by (intro watchdog_order [OF c m]) (simp_all add: config_calls_precedes is_prologue_call_def)
  have n0: "filter is_watchdog_call (fst (netcfg_main env args)) = []"
    if z: "idle_wait_min env 5 args = 0"
    using filter_truncation [OF n nw] netcfg_body_idle_zero [OF z]
      filter_calls_body(2) [of is_watchdog_call env args] by simp
  have n0s: "precedes (SignalAdd SIGINT) MainLoopRun (fst (netcfg_main env args))
           \<and> precedes (SignalAdd SIGTERM) MainLoopRun (fst (netcfg_main env args))"
    if m: "MainLoopRun \<in> set (fst (netcfg_main env args))"
    using precedes_truncation [OF n m] netcfg_body_signals [of env args]
    by (simp add: netcfg_calls_precedes is_prologue_call_def)
  have n1: "precedes (IdleCheckNew (unat (idle_wait_min env 5 args))) EnableIdleCheck
              (fst (netcfg_main env args))
          \<and> precedes EnableIdleCheck IdleEnable (fst (netcfg_main env args))
          \<and> precedes IdleEnable MainLoopRun (fst (netcfg_main env args))"
    if p: "0 < idle_wait_min env 5 args"
      and m: "MainLoopRun \<in> set (fst (netcfg_main env args))"
    using netcfg_body_idle_pos [OF p]
    by (intro watchdog_order [OF n m]) (simp_all add: netcfg_calls_precedes is_prologue_call_def)
  show ?thesis using c0 c0s c1 n0 n0s n1 by blast
qed

theorem idle_exit_zero_disables_watchdog_witness:
  "idle_wait_min env_root 3 args_idle_exit_0 = 0
   \<and> filter is_watchdog_call (fst (config_manager env_root args_idle_exit_0)) = []
   \<and> precedes (SignalAdd SIGTERM) MainLoopRun (fst (config_manager env_root args_idle_exit_0))
   \<and> idle_wait_min env_root 5 args_idle_exit_0 = 0
   \<and> filter is_watchdog_call (fst (netcfg_main env_root args_idle_exit_0)) = []
   \<and> precedes (SignalAdd SIGTERM) MainLoopRun (fst (netcfg_main env_root args_idle_exit_0))
   \<and> idle_wait_min env_root 3 no_args = 3
   \<and> precedes (IdleCheckNew 3) EnableIdleCheck (fst (config_manager env_root no_args))
   \<and> precedes EnableIdleCheck IdleEnable (fst (config_manager env_root no_args))
   \<and> precedes IdleEnable MainLoopRun (fst (config_manager env_root no_args))
   \<and> idle_wait_min env_root 5 no_args = 5
   \<and> precedes (IdleCheckNew 5) EnableIdleCheck (fst (netcfg_main env_root no_args))
   \<and> precedes EnableIdleCheck IdleEnable (fst (netcfg_main env_root no_args))
   \<and> precedes IdleEnable MainLoopRun (fst (netcfg_main env_root no_args))"
proof -
  have m: "MainLoopRun \<in> set (fst (config_manager env_root args_idle_exit_0))"
    "MainLoopRun \<in> set (fst (netcfg_main env_root args_idle_exit_0))"
    "MainLoopRun \<in> set (fst (config_manager env_root no_args))"
    "MainLoopRun \<in> set (fst (netcfg_main env_root no_args))"
    by (simp_all add: config_manager_idle_exit_0 netcfg_main_idle_exit_0
        config_manager_no_args netcfg_main_no_args)
  show ?thesis
    using idle_exit_zero_disables_watchdog [of env_root args_idle_exit_0]
      idle_exit_zero_disables_watchdog [of env_root no_args] m
    by (simp add: idle_samples)
qed

text \<open>
  Claim C8: in both daemons, with \<open>--signal-broadcast\<close> no call to the log service
  proxy is ever made (no attach, no detach). Without it, a run that reaches the main loop
  has attached before the loop, and a run that returns has detached the same interface
  after the loop (for the configuration manager: when \<open>AttachInterface\<close> returned a
  proxy).
\<close>

theorem broadcast_skips_log_relay:
  "(opt_signal_broadcast args \<longrightarrow>
      filter is_relay_call (fst (config_manager env args)) = []
      \<and> filter is_relay_call (fst (netcfg_main env args)) = [])
   \<and> (\<not> opt_signal_broadcast args \<and> MainLoopRun \<in> set (fst (config_manager env args)) \<longrightarrow>
        precedes (AttachInterface OpenVPN3DBus_interf_configuration) MainLoopRun
          (fst (config_manager env args)))
   \<and> (\<not> opt_signal_broadcast args \<and> AttachInterface_ptr env
        \<and> snd (config_manager env args) = Inr 0 \<longrightarrow>
        precedes MainLoopRun (Detach OpenVPN3DBus_interf_configuration)
          (fst (config_manager env args)))
   \<and> (\<not> opt_signal_broadcast args \<and> MainLoopRun \<in> set (fst (netcfg_main env args)) \<longrightarrow>
        precedes (Attach OpenVPN3DBus_interf_netcfg) MainLoopRun
          (fst (netcfg_main env args)))
   \<and> (\<not> opt_signal_broadcast args \<and> snd (netcfg_main env args) = Inr 0 \<longrightarrow>
        precedes MainLoopRun (Detach OpenVPN3DBus_interf_netcfg)
          (fst (netcfg_main env args)))"
proof -
  note c = config_manager_trace [of env args]
  note n = netcfg_main_trace [of env args]
  have nr: "\<not> is_relay_call DBusDestroy" "\<not> is_relay_call PrintFatalError"
    by (simp_all add: is_relay_call_def)
  have b: "filter is_relay_call (fst (config_manager env args)) = []
         \<and> filter is_relay_call (fst (netcfg_main env args)) = []"
    if bc: "opt_signal_broadcast args"
    using filter_truncation [OF c nr] filter_truncation [OF n nr] body_broadcast [OF bc]
      filter_calls_body [of is_relay_call env args] by simp
  have ca: "precedes (AttachInterface OpenVPN3DBus_interf_configuration) MainLoopRun
              (fst (config_manager env args))"
    if u: "\<not> opt_signal_broadcast args"
      and m: "MainLoopRun \<in> set (fst (config_manager env args))"
    using precedes_truncation [OF c m] body_unicast(1) [OF u]
    by (simp add: config_calls_precedes is_prologue_call_def)
  have cd: "precedes MainLoopRun (Detach OpenVPN3DBus_interf_configuration)
              (fst (config_manager env args))"
    if u: "\<not> opt_signal_broadcast args" and p: "AttachInterface_ptr env"
      and r: "snd (config_manager env args) = Inr 0"
  proof -
    have "precedes MainLoopRun (Detach OpenVPN3DBus_interf_configuration)
            (actions_of (config_manager_prologue args)
             @ (DBusNew # actions_of (config_manager_body env args) @ [DBusDestroy]))"
      using body_unicast(2) [OF u p]
      by (subst precedes_append2) (simp_all add: config_not_prologue is_prologue_call_def)
    then show ?thesis
      using config_manager_returns(1) [OF r] by (simp add: config_manager_calls_def)
  qed
  have na: "precedes (Attach OpenVPN3DBus_interf_netcfg) MainLoopRun
              (fst (netcfg_main env args))"
    if u: "\<not> opt_signal_broadcast args"
      and m: "MainLoopRun \<in> set (fst (netcfg_main env args))"
    using precedes_truncation [OF n m] body_unicast(4) [OF u]
    by (simp add: netcfg_calls_precedes is_prologue_call_def)
  have nd: "precedes MainLoopRun (Detach OpenVPN3DBus_interf_netcfg)
              (fst (netcfg_main env args))"
    if u: "\<not> opt_signal_broadcast args" and r: "snd (netcfg_main env args) = Inr 0"
  proof -
    have "precedes MainLoopRun (Detach OpenVPN3DBus_interf_netcfg)
            (actions_of (netcfg_main_prologue env args)
             @ (DBusNew # actions_of (netcfg_main_body env args) @ [DBusDestroy]))"
      using body_unicast(5) [OF u]
      by (subst precedes_append2) (simp_all add: netcfg_not_prologue is_prologue_call_def)
    then show ?thesis
      using netcfg_main_returns_0 [OF r] by (simp add: netcfg_main_calls_def)
  qed
  show ?thesis using b ca cd na nd by blast
qed

theorem broadcast_skips_log_relay_witness:
  "opt_signal_broadcast args_broadcast
   \<and> filter is_relay_call (fst (config_manager env_root args_broadcast)) = []
   \<and> filter is_relay_call (fst (netcfg_main env_root args_broadcast)) = []
   \<and> \<not> opt_signal_broadcast no_args
   \<and> snd (config_manager env_root no_args) = Inr 0
   \<and> precedes (AttachInterface OpenVPN3DBus_interf_configuration) MainLoopRun
        (fst (config_manager env_root no_args))
   \<and> precedes MainLoopRun (Detach OpenVPN3DBus_interf_configuration)
        (fst (config_manager env_root no_args))
   \<and> snd (netcfg_main env_root no_args) = Inr 0
   \<and> precedes (Attach OpenVPN3DBus_interf_netcfg) MainLoopRun
        (fst (netcfg_main env_root no_args))
   \<and> precedes MainLoopRun (Detach OpenVPN3DBus_interf_netcfg)
        (fst (netcfg_main env_root no_args))"
proof -
  have a: "opt_signal_broadcast args_broadcast" "\<not> opt_signal_broadcast no_args"
    "AttachInterface_ptr env_root"
    by (simp_all add: args_broadcast_def no_args_def env_root_def)
  have m: "MainLoopRun \<in> set (fst (config_manager env_root no_args))"
    "MainLoopRun \<in> set (fst (netcfg_main env_root no_args))"
    "snd (config_manager env_root no_args) = Inr 0"
    "snd (netcfg_main env_root no_args) = Inr 0"
    by (simp_all add: config_manager_no_args netcfg_main_no_args)
  show ?thesis
    using broadcast_skips_log_relay [of args_broadcast env_root]
      broadcast_skips_log_relay [of no_args env_root] a m
    by simp
qed

section \<open>Teardown\<close>

lemma not_precedes_DBusDestroy:
  assumes "truncation tr full" and "DBusDestroy \<notin> set full"
    and "x \<noteq> DBusDestroy" and "x \<noteq> PrintFatalError"
  shows "\<not> precedes DBusDestroy x tr"
proof
  assume pr: "precedes DBusDestroy x tr"
  from assms(1) obtain p s where ps: "prefix p full" "tr = p @ s"
    "set s \<subseteq> {DBusDestroy, PrintFatalError}"
    by (auto simp: truncation_def)
  from pr have "x \<in> set tr" by (simp add: precedes_in_set)
  with ps assms(3,4) have "x \<in> set p" by auto
  with pr ps(2) have "precedes DBusDestroy x p" by (simp add: precedes_append1)
  then have "DBusDestroy \<in> set p" by (simp add: precedes_in_set)
  with ps(1) assms(2) show False by (auto dest!: set_mono_prefix)
qed

lemma DBusDestroy_notin_calls:
  "DBusDestroy \<notin> set (config_manager_calls env args)"
  "DBusDestroy \<notin> set (netcfg_main_calls env args)"
  by (simp_all add: config_manager_calls_def netcfg_main_calls_def config_not_prologue
      netcfg_not_prologue is_prologue_call_def)
     (simp_all add: config_manager_body_def netcfg_main_body_def Let_def split: option.splits)

lemma body_teardown:
  "dropWhile (\<lambda>a. a \<noteq> MainLoopRun)
     (DBusNew # actions_of (config_manager_body env args) @ [DBusDestroy])
   = [MainLoopRun, MainLoopUnref]
     @ (if \<not> opt_signal_broadcast args \<and> AttachInterface_ptr env
        then [Detach OpenVPN3DBus_interf_configuration] else [])
     @ (if 0 < idle_wait_min env 3 args then [IdleDisable, IdleJoin] else [])
     @ [DBusDestroy]"
  "dropWhile (\<lambda>a. a \<noteq> MainLoopRun)
     (DBusNew # actions_of (netcfg_main_body env args) @ [DBusDestroy])
   = [MainLoopRun, Usleep 500, MainLoopUnref]
     @ (if \<not> opt_signal_broadcast args then [Detach OpenVPN3DBus_interf_netcfg] else [])
     @ (if 0 < idle_wait_min env 5 args then [IdleDisable, IdleJoin] else [])
     @ [DBusDestroy]"
  by (simp_all add: config_manager_body_def netcfg_main_body_def Let_def split: option.splits)

lemma body_unref_pos:
  assumes "0 < idle_wait_min env 3 args"
  shows "precedes MainLoopUnref IdleDisable (DBusNew # actions_of (config_manager_body env args))"
    and "precedes MainLoopUnref IdleJoin (DBusNew # actions_of (config_manager_body env args))"
  using assms by (simp_all add: config_manager_body_def Let_def split: option.splits)

lemma body_unref_pos_netcfg:
  assumes "0 < idle_wait_min env 5 args"
  shows "precedes MainLoopUnref IdleDisable (DBusNew # actions_of (netcfg_main_body env args))"
    and "precedes MainLoopUnref IdleJoin (DBusNew # actions_of (netcfg_main_body env args))"
  using assms by (simp_all add: netcfg_main_body_def Let_def split: option.splits)

lemma filter_empty_notin: "filter P xs = [] \<Longrightarrow> P x \<Longrightarrow> x \<notin> set xs"
  by (auto simp: filter_empty_conv)

lemma body_unref_first:
  assumes "x = IdleDisable \<or> x = IdleJoin"
  shows "x \<in> set (DBusNew # actions_of (config_manager_body env args)) \<Longrightarrow>
         precedes MainLoopUnref x (DBusNew # actions_of (config_manager_body env args))"
    and "x \<in> set (DBusNew # actions_of (netcfg_main_body env args)) \<Longrightarrow>
         precedes MainLoopUnref x (DBusNew # actions_of (netcfg_main_body env args))"
proof -
  have w: "is_watchdog_call x" using assms by (auto simp: is_watchdog_call_def)
  show "precedes MainLoopUnref x (DBusNew # actions_of (config_manager_body env args))"
    if m: "x \<in> set (DBusNew # actions_of (config_manager_body env args))"
  proof (cases "idle_wait_min env 3 args = 0")
    case True
    from filter_empty_notin [OF config_body_idle_zero(1) [OF True] w] m
    show ?thesis by simp
  next
    case False
    then have "0 < idle_wait_min env 3 args" using word32_zero_or_pos by blast
    from body_unref_pos [OF this] assms show ?thesis by blast
  qed
  show "precedes MainLoopUnref x (DBusNew # actions_of (netcfg_main_body env args))"
    if m: "x \<in> set (DBusNew # actions_of (netcfg_main_body env args))"
  proof (cases "idle_wait_min env 5 args = 0")
    case True
    from filter_empty_notin [OF netcfg_body_idle_zero [OF True] w] m
    show ?thesis by simp
  next
    case False
    then have "0 < idle_wait_min env 5 args" using word32_zero_or_pos by blast
    from body_unref_pos_netcfg [OF this] assms show ?thesis by blast
  qed
qed

text \<open>
  The claim C2 as the specification states it fails: with no option given, the
  configuration manager releases the loop object before it detaches from the log relay
  and before it disables and joins the watchdog.
\<close>

theorem teardown_order_counterexample:
  "precedes MainLoopUnref IdleDisable (fst (config_manager env_root no_args))
   \<and> \<not> precedes IdleJoin MainLoopUnref (fst (config_manager env_root no_args))
   \<and> precedes MainLoopUnref (Detach OpenVPN3DBus_interf_configuration)
        (fst (config_manager env_root no_args))"
  by (simp add: config_manager_no_args)

text \<open>
  Claim C2, amended: when the command function of either daemon returns 0, what it did from
  \<open>g_main_loop_run\<close> on is exactly: release the loop object (\<open>g_main_loop_unref\<close>,
  in the network service after \<open>usleep(500)\<close>), detach from the log relay if attached,
  disable and join the watchdog if the idle-exit threshold is above 0, destroy the bus
  object. In every run, a disable or join of the watchdog comes after the release of the
  loop object and not after the destruction of the bus object.
\<close>

theorem teardown_order:
  "(snd (config_manager env args) = Inr 0 \<longrightarrow>
      dropWhile (\<lambda>a. a \<noteq> MainLoopRun) (fst (config_manager env args))
      = [MainLoopRun, MainLoopUnref]
        @ (if \<not> opt_signal_broadcast args \<and> AttachInterface_ptr env
           then [Detach OpenVPN3DBus_interf_configuration] else [])
        @ (if 0 < idle_wait_min env 3 args then [IdleDisable, IdleJoin] else [])
        @ [DBusDestroy])
   \<and> (snd (netcfg_main env args) = Inr 0 \<longrightarrow>
        dropWhile (\<lambda>a. a \<noteq> MainLoopRun) (fst (netcfg_main env args))
        = [MainLoopRun, Usleep 500, MainLoopUnref]
          @ (if \<not> opt_signal_broadcast args then [Detach OpenVPN3DBus_interf_netcfg] else [])
          @ (if 0 < idle_wait_min env 5 args then [IdleDisable, IdleJoin] else [])
          @ [DBusDestroy])
   \<and> ((x = IdleDisable \<or> x = IdleJoin) \<and> x \<in> set (fst (config_manager env args)) \<longrightarrow>
        precedes MainLoopUnref x (fst (config_manager env args))
        \<and> \<not> precedes DBusDestroy x (fst (config_manager env args)))
   \<and> ((x = IdleDisable \<or> x = IdleJoin) \<and> x \<in> set (fst (netcfg_main env args)) \<longrightarrow>
        precedes MainLoopUnref x (fst (netcfg_main env args))
        \<and> \<not> precedes DBusDestroy x (fst (netcfg_main env args)))"
proof -
  note c = config_manager_trace [of env args]
  note n = netcfg_main_trace [of env args]
  have np: "\<And>a. a \<in> set (actions_of (config_manager_prologue args)) \<Longrightarrow> a \<noteq> MainLoopRun"
    "\<And>a. a \<in> set (actions_of (netcfg_main_prologue env args)) \<Longrightarrow> a \<noteq> MainLoopRun"
    using config_not_prologue [of MainLoopRun args] netcfg_not_prologue [of MainLoopRun env args]
    by (auto simp: is_prologue_call_def)
  have ct: "dropWhile (\<lambda>a. a \<noteq> MainLoopRun) (fst (config_manager env args))
      = [MainLoopRun, MainLoopUnref]
        @ (if \<not> opt_signal_broadcast args \<and> AttachInterface_ptr env
           then [Detach OpenVPN3DBus_interf_configuration] else [])
        @ (if 0 < idle_wait_min env 3 args then [IdleDisable, IdleJoin] else [])
        @ [DBusDestroy]"
    if r: "snd (config_manager env args) = Inr 0"
  proof -
    have "fst (config_manager env args)
        = actions_of (config_manager_prologue args)
          @ (DBusNew # actions_of (config_manager_body env args) @ [DBusDestroy])"
      using config_manager_returns(1) [OF r] by (simp add: config_manager_calls_def)
    moreover have "dropWhile (\<lambda>a. a \<noteq> MainLoopRun)
        (actions_of (config_manager_prologue args)
          @ (DBusNew # actions_of (config_manager_body env args) @ [DBusDestroy]))
        = dropWhile (\<lambda>a. a \<noteq> MainLoopRun)
            (DBusNew # actions_of (config_manager_body env args) @ [DBusDestroy])"
      by (rule dropWhile_append2) (rule np(1))
    ultimately show ?thesis
      using body_teardown(1) [of env args] by (simp only:)
  qed
  have nt: "dropWhile (\<lambda>a. a \<noteq> MainLoopRun) (fst (netcfg_main env args))
        = [MainLoopRun, Usleep 500, MainLoopUnref]
          @ (if \<not> opt_signal_broadcast args then [Detach OpenVPN3DBus_interf_netcfg] else [])
          @ (if 0 < idle_wait_min env 5 args then [IdleDisable, IdleJoin] else [])
          @ [DBusDestroy]"
    if r: "snd (netcfg_main env args) = Inr 0"
  proof -
    have "fst (netcfg_main env args)
        = actions_of (netcfg_main_prologue env args)
          @ (DBusNew # actions_of (netcfg_main_body env args) @ [DBusDestroy])"
      using netcfg_main_returns_0 [OF r] by (simp add: netcfg_main_calls_def)
    moreover have "dropWhile (\<lambda>a. a \<noteq> MainLoopRun)
        (actions_of (netcfg_main_prologue env args)
          @ (DBusNew # actions_of (netcfg_main_body env args) @ [DBusDestroy]))
        = dropWhile (\<lambda>a. a \<noteq> MainLoopRun)
            (DBusNew # actions_of (netcfg_main_body env args) @ [DBusDestroy])"
      by (rule dropWhile_append2) (rule np(2))
    ultimately show ?thesis
      using body_teardown(2) [of env args] by (simp only:)
  qed
  have co: "precedes MainLoopUnref x (fst (config_manager env args))
          \<and> \<not> precedes DBusDestroy x (fst (config_manager env args))"
    if x: "x = IdleDisable \<or> x = IdleJoin" and m: "x \<in> set (fst (config_manager env args))"
  proof -
    have xn: "x \<noteq> DBusDestroy" "x \<noteq> PrintFatalError" "\<not> is_prologue_call x"
      using x by (auto simp: is_prologue_call_def)
    have "x \<in> set (config_manager_calls env args)"
      by (rule present_truncation [OF c m xn(1,2)])
    then have "x \<in> set (DBusNew # actions_of (config_manager_body env args))"
      using config_not_prologue [OF xn(3), of args] by (simp add: config_manager_calls_def)
    from body_unref_first(1) [OF x this]
    have "precedes MainLoopUnref x (config_manager_calls env args)"
      using xn(3) by (simp add: config_calls_precedes is_prologue_call_def)
    from precedes_truncation [OF c m xn(1,2) this]
      not_precedes_DBusDestroy [OF c DBusDestroy_notin_calls(1) xn(1,2)]
    show ?thesis by simp
  qed
  have no: "precedes MainLoopUnref x (fst (netcfg_main env args))
          \<and> \<not> precedes DBusDestroy x (fst (netcfg_main env args))"
    if x: "x = IdleDisable \<or> x = IdleJoin" and m: "x \<in> set (fst (netcfg_main env args))"
  proof -
    have xn: "x \<noteq> DBusDestroy" "x \<noteq> PrintFatalError" "\<not> is_prologue_call x"
      using x by (auto simp: is_prologue_call_def)
    have "x \<in> set (netcfg_main_calls env args)"
      by (rule present_truncation [OF n m xn(1,2)])
    then have "x \<in> set (DBusNew # actions_of (netcfg_main_body env args))"
      using netcfg_not_prologue [OF xn(3), of env args] by (simp add: netcfg_main_calls_def)
    from body_unref_first(2) [OF x this]
    have "precedes MainLoopUnref x (netcfg_main_calls env args)"
      using xn(3) by (simp add: netcfg_calls_precedes is_prologue_call_def)
    from precedes_truncation [OF n m xn(1,2) this]
      not_precedes_DBusDestroy [OF n DBusDestroy_notin_calls(2) xn(1,2)]
    show ?thesis by simp
  qed
  show ?thesis using ct nt co no by blast
qed

theorem teardown_order_witness:
  "snd (config_manager env_root no_args) = Inr 0
   \<and> dropWhile (\<lambda>a. a \<noteq> MainLoopRun) (fst (config_manager env_root no_args))
       = [MainLoopRun, MainLoopUnref, Detach OpenVPN3DBus_interf_configuration,
          IdleDisable, IdleJoin, DBusDestroy]
   \<and> snd (netcfg_main env_root no_args) = Inr 0
   \<and> dropWhile (\<lambda>a. a \<noteq> MainLoopRun) (fst (netcfg_main env_root no_args))
       = [MainLoopRun, Usleep 500, MainLoopUnref, Detach OpenVPN3DBus_interf_netcfg,
          IdleDisable, IdleJoin, DBusDestroy]
   \<and> IdleJoin \<in> set (fst (config_manager env_root no_args))
   \<and> precedes MainLoopUnref IdleJoin (fst (config_manager env_root no_args))
   \<and> \<not> precedes DBusDestroy IdleJoin (fst (config_manager env_root no_args))
   \<and> IdleJoin \<in> set (fst (netcfg_main env_root no_args))
   \<and> precedes MainLoopUnref IdleJoin (fst (netcfg_main env_root no_args))
   \<and> \<not> precedes DBusDestroy IdleJoin (fst (netcfg_main env_root no_args))"
proof -
  have r: "snd (config_manager env_root no_args) = Inr 0"
    "snd (netcfg_main env_root no_args) = Inr 0"
    "IdleJoin \<in> set (fst (config_manager env_root no_args))"
    "IdleJoin \<in> set (fst (netcfg_main env_root no_args))"
    by (simp_all add: config_manager_no_args netcfg_main_no_args)
  have p: "\<not> opt_signal_broadcast no_args" "AttachInterface_ptr env_root"
    by (simp_all add: no_args_def env_root_def)
  show ?thesis
    using teardown_order [of env_root no_args IdleJoin] r p
    by (simp add: idle_samples)
qed

section \<open>Log sink and privilege drop\<close>

lemma precedes_across:
  assumes "a \<in> set xs" and "r \<notin> set xs" and "r \<in> set ys"
  shows "precedes a r (xs @ ys)"
  using assms by (induction xs) auto

lemma actions_of_open_log_append:
  "actions_of (open_log args @ ss) = actions_of (open_log args) @ actions_of ss"
  by (simp add: open_log_def Let_def split: option.splits)

lemma capng_not_log_sink: "is_capng_call r \<Longrightarrow> r \<notin> set (log_sink_calls args)"
  by (auto simp: log_sink_calls_def open_log_def Let_def is_capng_call_def
      split: option.splits if_splits)

lemma netcfg_prologue_split:
  "actions_of (netcfg_main_prologue env args) = []
   \<or> (\<exists>rest. actions_of (netcfg_main_prologue env args)
                = log_sink_calls args @ CapngClear # rest)"
  by (simp add: netcfg_main_prologue_def actions_of_open_log_append log_sink_calls_def)

lemma no_capng_in_body:
  "filter is_capng_call (DBusNew # actions_of (netcfg_main_body env args)) = []"
  by (simp add: netcfg_main_body_def Let_def is_capng_call_def split: option.splits)

lemma netcfg_calls_log_first:
  assumes a: "a \<in> set (log_sink_calls args)" and r: "is_capng_call r"
    and m: "r \<in> set (netcfg_main_calls env args)"
  shows "precedes a r (netcfg_main_calls env args)"
proof -
  let ?pro = "actions_of (netcfg_main_prologue env args)"
  have "r \<notin> set (DBusNew # actions_of (netcfg_main_body env args))"
    using filter_empty_notin [OF no_capng_in_body r] .
  with m have rp: "r \<in> set ?pro" by (auto simp: netcfg_main_calls_def)
  then obtain rest where rest: "?pro = log_sink_calls args @ CapngClear # rest"
    using netcfg_prologue_split [of env args] by auto
  have "r \<notin> set (log_sink_calls args)" using r by (rule capng_not_log_sink)
  with rp rest have "r \<in> set (CapngClear # rest)" by auto
  with a \<open>r \<notin> set (log_sink_calls args)\<close> have "precedes a r ?pro"
    unfolding rest by (intro precedes_across)
  then show ?thesis using rp by (simp add: netcfg_main_calls_def precedes_append1)
qed

lemma configmgr_main_starts:
  "\<exists>xs. fst (configmgr_main env cl) = DropRoot # xs"
  by (auto simp: configmgr_main_def configmgr_handlers_def
      split: option.splits cmdline.splits prod.splits sum.splits)

lemma DropRoot_not_log_sink: "DropRoot \<notin> set (log_sink_calls args)"
  by (auto simp: log_sink_calls_def open_log_def Let_def split: option.splits if_splits)

text \<open>
  The claim C3 as the specification states it fails for the configuration manager:
  \<open>main\<close> calls \<open>drop_root()\<close> before \<open>RunCommand\<close>, so with a log file asked
  for, the privileges are dropped before the log writer is constructed.
\<close>

theorem log_sink_before_restriction_counterexample:
  "precedes DropRoot (StreamLogWriterNew (LogFile ''/var/log/openvpn3-configmgr.log''))
     (fst (configmgr_main env_root (Args args_log_file)))
   \<and> \<not> precedes (StreamLogWriterNew (LogFile ''/var/log/openvpn3-configmgr.log'')) DropRoot
         (fst (configmgr_main env_root (Args args_log_file)))"
  by (simp add: configmgr_main_def run_defs args_log_file_def)

text \<open>
  Claim C3, amended: in the network-configuration daemon every call that constructs the
  log sink (opening the file, the colour engine, the writer) comes before every libcap-ng
  call that is made. In the configuration manager it is the other way round: the log sink
  is constructed after \<open>drop_root()\<close>.
\<close>

theorem log_sink_and_privilege_drop:
  "(a \<in> set (log_sink_calls args) \<and> is_capng_call r
      \<and> r \<in> set (fst (netcfg_main env args)) \<longrightarrow>
      precedes a r (fst (netcfg_main env args)))
   \<and> (a \<in> set (log_sink_calls args)
        \<and> a \<in> set (fst (configmgr_main env (Args args))) \<longrightarrow>
        precedes DropRoot a (fst (configmgr_main env (Args args))))"
proof (intro conjI impI)
  note n = netcfg_main_trace [of env args]
  {
    assume h: "a \<in> set (log_sink_calls args) \<and> is_capng_call r
      \<and> r \<in> set (fst (netcfg_main env args))"
    then have rn: "r \<noteq> DBusDestroy" "r \<noteq> PrintFatalError"
      by (auto simp: is_capng_call_def)
    from h have "r \<in> set (netcfg_main_calls env args)"
      using present_truncation [OF n _ rn] by simp
    with h have "precedes a r (netcfg_main_calls env args)"
      by (simp add: netcfg_calls_log_first)
    with h show "precedes a r (fst (netcfg_main env args))"
      using precedes_truncation [OF n _ rn] by simp
  }
  {
    assume h: "a \<in> set (log_sink_calls args)
        \<and> a \<in> set (fst (configmgr_main env (Args args)))"
    obtain xs where xs: "fst (configmgr_main env (Args args)) = DropRoot # xs"
      using configmgr_main_starts by blast
    from h have "a \<noteq> DropRoot" using DropRoot_not_log_sink by blast
    with h xs show "precedes DropRoot a (fst (configmgr_main env (Args args)))"
      by auto
  }
qed

theorem log_sink_and_privilege_drop_witness:
  "log_sink_calls args_log_file
     = [LogFileOpen ''/var/log/openvpn3-configmgr.log'',
        StreamLogWriterNew (LogFile ''/var/log/openvpn3-configmgr.log'')]
   \<and> precedes (StreamLogWriterNew (LogFile ''/var/log/openvpn3-configmgr.log'')) CapngClear
        (fst (netcfg_main env_root args_log_file))
   \<and> precedes (LogFileOpen ''/var/log/openvpn3-configmgr.log'')
        (CapngChangeId [CAPNG_DROP_SUPP_GRP, CAPNG_CLEAR_BOUNDING])
        (fst (netcfg_main env_root args_log_file))
   \<and> precedes DropRoot (StreamLogWriterNew (LogFile ''/var/log/openvpn3-configmgr.log''))
        (fst (configmgr_main env_root (Args args_log_file)))"
proof -
  let ?f = "''/var/log/openvpn3-configmgr.log''"
  have l: "log_sink_calls args_log_file = [LogFileOpen ?f, StreamLogWriterNew (LogFile ?f)]"
    by (simp add: log_sink_calls_def open_log_def args_log_file_def no_args_def)
  have n: "CapngClear \<in> set (fst (netcfg_main env_root args_log_file))"
    "CapngChangeId [CAPNG_DROP_SUPP_GRP, CAPNG_CLEAR_BOUNDING]
       \<in> set (fst (netcfg_main env_root args_log_file))"
    by (simp_all add: run_defs args_log_file_def)
  have c: "StreamLogWriterNew (LogFile ?f)
             \<in> set (fst (configmgr_main env_root (Args args_log_file)))"
    by (simp add: configmgr_main_def run_defs args_log_file_def)
  have k: "is_capng_call CapngClear"
    "is_capng_call (CapngChangeId [CAPNG_DROP_SUPP_GRP, CAPNG_CLEAR_BOUNDING])"
    by (simp_all add: is_capng_call_def)
  show ?thesis
    using log_sink_and_privilege_drop
            [of "StreamLogWriterNew (LogFile ?f)" args_log_file CapngClear env_root]
      log_sink_and_privilege_drop
            [of "LogFileOpen ?f" args_log_file
                "CapngChangeId [CAPNG_DROP_SUPP_GRP, CAPNG_CLEAR_BOUNDING]" env_root]
      l n c k
    by simp
qed

section \<open>Exit codes\<close>

lemma raises_append [simp]: "raises (xs @ ys) = (raises xs \<or> raises ys)"
  by (induction xs rule: raises.induct) auto

lemma exec_no_throw:
  assumes "\<And>a. a \<in> set (actions_of ss) \<Longrightarrow> throws env a = None" and "\<not> raises ss"
  shows "exec env ss = (actions_of ss, None)"
  using assms by (induction env ss rule: exec.induct) auto

lemma no_raise_open_log [simp]: "\<not> raises (open_log args)"
  by (simp add: open_log_def Let_def split: option.splits)

lemma no_raise_config [simp]:
  "\<not> raises (config_manager_prologue args)" "\<not> raises (config_manager_body env args)"
  by (simp_all add: config_manager_prologue_def config_manager_body_def Let_def
      split: option.splits)

lemma no_raise_netcfg [simp]:
  "getegid env = 0 \<Longrightarrow> geteuid env = 0 \<Longrightarrow> capng_change_id env = 0 \<Longrightarrow>
   \<not> raises (netcfg_main_prologue env args)"
  "\<not> raises (netcfg_main_body env args)"
  by (simp_all add: netcfg_main_prologue_def netcfg_main_body_def drop_root_ng_def Let_def
      split: option.splits)

lemma config_manager_orderly:
  assumes "\<And>a. throws env a = None"
  shows "snd (config_manager env args) = Inr 0"
  using assms by (simp add: config_manager_def scope_DBus_def exec_no_throw)

lemma netcfg_main_orderly:
  assumes "\<And>a. throws env a = None"
    and "getegid env = 0" and "geteuid env = 0" and "capng_change_id env = 0"
  shows "snd (netcfg_main env args) = Inr 0"
  using assms by (simp add: netcfg_main_def scope_DBus_def exec_no_throw)

lemma config_manager_rc: "snd (config_manager env args) = Inr rc \<Longrightarrow> rc = 0"
  by (rule config_manager_returns(2))

lemma netcfg_main_rc: "snd (netcfg_main env args) = Inr rc \<Longrightarrow> rc = 0 \<or> rc = 3"
  by (auto simp: netcfg_main_def split: prod.splits option.splits if_splits)

lemma configmgr_main_codes:
  "snd (configmgr_main env cl) = Exit 0 \<or> snd (configmgr_main env cl) = Exit 2
   \<or> (\<exists>e. snd (configmgr_main env cl) = Terminate e
          \<and> \<not> catches env LogServiceProxyException e
          \<and> \<not> catches env CommandArgBaseException e)"
proof (cases "throws env DropRoot")
  case (Some e)
  then show ?thesis by (simp add: configmgr_main_def configmgr_handlers_def)
next
  case None
  show ?thesis
  proof (cases cl)
    case (ArgError e)
    then show ?thesis using None by (simp add: configmgr_main_def configmgr_handlers_def)
  next
    case (Args args)
    obtain t r where tr: "config_manager env args = (t, r)" by (cases "config_manager env args")
    show ?thesis
    proof (cases r)
      case (Inl e)
      then show ?thesis using None Args tr
        by (simp add: configmgr_main_def configmgr_handlers_def)
    next
      case (Inr rc)
      then have "rc = 0" using config_manager_rc [of env args rc] tr by simp
      then show ?thesis using None Args tr Inr by (simp add: configmgr_main_def)
    qed
  qed
qed

lemma configmgr_main_handled:
  assumes "throws env DropRoot = None"
    and "cl = ArgError e \<or> (\<exists>args. cl = Args args \<and> snd (config_manager env args) = Inl e)"
  shows "snd (configmgr_main env cl)
         = (if catches env LogServiceProxyException e \<or> catches env CommandArgBaseException e
            then Exit 2 else Terminate e)"
  using assms
  by (auto simp: configmgr_main_def configmgr_handlers_def split: prod.splits)

lemma config_attach_fails:
  assumes "\<not> opt_signal_broadcast args"
    and "throws env (AttachInterface OpenVPN3DBus_interf_configuration) = Some e"
    and "\<And>a. \<not> is_relay_call a \<Longrightarrow> throws env a = None"
  shows "snd (config_manager env args) = Inl e"
proof -
  have "\<And>a. a \<in> set (actions_of (config_manager_prologue args)) \<Longrightarrow> throws env a = None"
  proof -
    fix a assume "a \<in> set (actions_of (config_manager_prologue args))"
    then have "is_prologue_call a" using config_not_prologue [of a args] by blast
    then have "\<not> is_relay_call a" using no_relay_in_prologue by blast
    then show "throws env a = None" by (rule assms(3))
  qed
  then have "exec env (config_manager_prologue args)
           = (actions_of (config_manager_prologue args), None)"
    by (simp add: exec_no_throw)
  then show ?thesis using assms
    by (simp add: config_manager_def scope_DBus_def config_manager_body_def Let_def
        is_relay_call_def)
qed


lemma netcfg_attach_fails:
  assumes "getegid env = 0" and "geteuid env = 0" and "capng_change_id env = 0"
    and "\<not> opt_signal_broadcast args"
    and "throws env LogServiceProxyNew = None"
    and "throws env (Attach OpenVPN3DBus_interf_netcfg) = Some e"
    and "\<And>a. \<not> is_relay_call a \<Longrightarrow> throws env a = None"
  shows "snd (exec env (netcfg_main_prologue env args)) = None
       \<and> snd (scope_DBus env (netcfg_main_body env args)) = Some e"
proof -
  have "throws env a = None" if "a \<in> set (actions_of (netcfg_main_prologue env args))" for a
  proof -
    from that have "is_prologue_call a" using netcfg_not_prologue [of a env args] by blast
    then have "\<not> is_relay_call a" using no_relay_in_prologue by blast
    then show ?thesis by (rule assms(7))
  qed
  then have "exec env (netcfg_main_prologue env args)
           = (actions_of (netcfg_main_prologue env args), None)"
    using assms(1-3) by (simp add: exec_no_throw)
  then show ?thesis using assms(4-7)
    by (simp add: scope_DBus_def netcfg_main_body_def Let_def is_relay_call_def)
qed

lemma netcfg_try_exception:
  assumes "snd (exec env (netcfg_main_prologue env args)) = None"
    and "snd (scope_DBus env (netcfg_main_body env args)) = Some e"
    and "catches env std_exception e"
  shows "snd (netcfg_service_main env (Args args)) = Exit 3"
  using assms
  by (auto simp: netcfg_service_main_def netcfg_main_def split: prod.splits option.splits)

lemma netcfg_service_main_handled:
  assumes "cl = ArgError e \<or> (\<exists>args. cl = Args args \<and> snd (netcfg_main env args) = Inl e)"
  shows "snd (netcfg_service_main env cl)
         = (if catches env CommandException e then Exit 2 else Terminate e)"
  using assms
  by (auto simp: netcfg_service_main_def netcfg_handlers_def split: prod.splits)

lemma netcfg_service_main_orderly:
  assumes "\<And>a. throws env a = None"
    and "getegid env = 0" and "geteuid env = 0" and "capng_change_id env = 0"
  shows "snd (netcfg_service_main env (Args args)) = Exit 0"
  using netcfg_main_orderly [OF assms, of args]
  by (auto simp: netcfg_service_main_def split: prod.splits)

lemma configmgr_main_orderly:
  assumes "\<And>a. throws env a = None"
  shows "snd (configmgr_main env (Args args)) = Exit 0"
  using config_manager_orderly [OF assms, of args] assms
  by (auto simp: configmgr_main_def split: prod.splits)

text \<open>
  The claim C4 as the specification states it fails for the configuration manager: its
  \<open>main\<close> has no handler that returns 3. When the service's \<open>Setup()\<close> throws an
  exception that is neither a \<open>LogServiceProxyException\<close> nor a
  \<open>CommandArgBaseException\<close>, no handler takes it and the process ends in
  \<open>std::terminate\<close>.
\<close>

theorem exit_codes_counterexample:
  "throws env_setup_throws Setup = Some (OtherException 0)
   \<and> snd (configmgr_main env_setup_throws (Args no_args)) = Terminate (OtherException 0)"
  by (simp add: configmgr_main_def configmgr_handlers_def catches_def env_setup_throws_def
      run_defs)

text \<open>
  Claim C4, amended. Configuration manager: exit code 0 when no call throws (orderly
  shutdown); 2 when an exception of class \<open>LogServiceProxyException\<close> or
  \<open>CommandArgBaseException\<close> (or derived from one of them) reaches \<open>main\<close> from
  the argument parser or from \<open>config_manager\<close>, in particular when attaching to the
  log relay throws a \<open>LogServiceProxyException\<close>; otherwise the exception is not
  caught; the code is never 3. Network service: exit code 0 when it runs as root, the
  privilege drop succeeds and no call throws; 2 when a \<open>CommandException\<close> reaches
  \<open>main\<close> from the argument parser or from \<open>netcfg_main\<close>, any other exception
  reaching \<open>main\<close> is not caught; 3 when an exception derived from
  \<open>std::exception\<close> is thrown inside the \<open>try\<close> block, which includes a failed
  attachment to the log relay.
\<close>

theorem exit_codes:
  "((\<forall>a. throws env a = None) \<longrightarrow> snd (configmgr_main env (Args args)) = Exit 0)
   \<and> (throws env DropRoot = None
        \<and> (cl = ArgError e \<or> (\<exists>args. cl = Args args \<and> snd (config_manager env args) = Inl e))
        \<longrightarrow> snd (configmgr_main env cl)
             = (if catches env LogServiceProxyException e
                   \<or> catches env CommandArgBaseException e
                then Exit 2 else Terminate e))
   \<and> (\<not> opt_signal_broadcast args
        \<and> throws env (AttachInterface OpenVPN3DBus_interf_configuration) = Some e
        \<and> (\<forall>a. \<not> is_relay_call a \<longrightarrow> throws env a = None)
        \<and> catches env LogServiceProxyException e
        \<longrightarrow> snd (configmgr_main env (Args args)) = Exit 2)
   \<and> snd (configmgr_main env cl) \<noteq> Exit 3
   \<and> ((\<forall>a. throws env a = None) \<and> getegid env = 0 \<and> geteuid env = 0
        \<and> capng_change_id env = 0
        \<longrightarrow> snd (netcfg_service_main env (Args args)) = Exit 0)
   \<and> (cl = ArgError e \<or> (\<exists>args. cl = Args args \<and> snd (netcfg_main env args) = Inl e)
        \<longrightarrow> snd (netcfg_service_main env cl)
             = (if catches env CommandException e then Exit 2 else Terminate e))
   \<and> (snd (exec env (netcfg_main_prologue env args)) = None
        \<and> snd (scope_DBus env (netcfg_main_body env args)) = Some e
        \<and> catches env std_exception e
        \<longrightarrow> snd (netcfg_service_main env (Args args)) = Exit 3)
   \<and> (getegid env = 0 \<and> geteuid env = 0 \<and> capng_change_id env = 0
        \<and> \<not> opt_signal_broadcast args
        \<and> throws env LogServiceProxyNew = None
        \<and> throws env (Attach OpenVPN3DBus_interf_netcfg) = Some e
        \<and> (\<forall>a. \<not> is_relay_call a \<longrightarrow> throws env a = None)
        \<and> catches env std_exception e
        \<longrightarrow> snd (netcfg_service_main env (Args args)) = Exit 3)"
proof (intro conjI impI)
  show "snd (configmgr_main env (Args args)) = Exit 0" if "\<forall>a. throws env a = None"
    using that by (simp add: configmgr_main_orderly)
  show "snd (configmgr_main env cl)
        = (if catches env LogServiceProxyException e \<or> catches env CommandArgBaseException e
           then Exit 2 else Terminate e)"
    if "throws env DropRoot = None
        \<and> (cl = ArgError e \<or> (\<exists>args. cl = Args args \<and> snd (config_manager env args) = Inl e))"
    using that by (intro configmgr_main_handled) simp_all
  show "snd (configmgr_main env (Args args)) = Exit 2"
    if h: "\<not> opt_signal_broadcast args
        \<and> throws env (AttachInterface OpenVPN3DBus_interf_configuration) = Some e
        \<and> (\<forall>a. \<not> is_relay_call a \<longrightarrow> throws env a = None)
        \<and> catches env LogServiceProxyException e"
  proof -
    from h have "snd (config_manager env args) = Inl e"
      by (intro config_attach_fails) simp_all
    moreover from h have "throws env DropRoot = None" by (simp add: is_relay_call_def)
    ultimately show ?thesis
      using configmgr_main_handled [of env "Args args" e] h by simp
  qed
  show "snd (configmgr_main env cl) \<noteq> Exit 3"
    using configmgr_main_codes [of env cl] by auto
  show "snd (netcfg_service_main env (Args args)) = Exit 0"
    if "(\<forall>a. throws env a = None) \<and> getegid env = 0 \<and> geteuid env = 0
        \<and> capng_change_id env = 0"
    using that by (simp add: netcfg_service_main_orderly)
  show "snd (netcfg_service_main env cl)
        = (if catches env CommandException e then Exit 2 else Terminate e)"
    if "cl = ArgError e \<or> (\<exists>args. cl = Args args \<and> snd (netcfg_main env args) = Inl e)"
    using that by (rule netcfg_service_main_handled)
  show "snd (netcfg_service_main env (Args args)) = Exit 3"
    if "snd (exec env (netcfg_main_prologue env args)) = None
        \<and> snd (scope_DBus env (netcfg_main_body env args)) = Some e
        \<and> catches env std_exception e"
    using that by (intro netcfg_try_exception [of env args e]) simp_all
  show "snd (netcfg_service_main env (Args args)) = Exit 3"
    if h: "getegid env = 0 \<and> geteuid env = 0 \<and> capng_change_id env = 0
        \<and> \<not> opt_signal_broadcast args
        \<and> throws env LogServiceProxyNew = None
        \<and> throws env (Attach OpenVPN3DBus_interf_netcfg) = Some e
        \<and> (\<forall>a. \<not> is_relay_call a \<longrightarrow> throws env a = None)
        \<and> catches env std_exception e"
  proof -
    from h have "snd (exec env (netcfg_main_prologue env args)) = None
       \<and> snd (scope_DBus env (netcfg_main_body env args)) = Some e"
      by (intro netcfg_attach_fails) simp_all
    with h show ?thesis by (intro netcfg_try_exception [of env args e]) simp_all
  qed
qed


theorem exit_codes_witness:
  "snd (configmgr_main env_root (Args no_args)) = Exit 0
   \<and> snd (netcfg_service_main env_root (Args no_args)) = Exit 0
   \<and> snd (configmgr_main env_root (ArgError CommandArgBaseException)) = Exit 2
   \<and> snd (netcfg_service_main env_root (ArgError CommandException)) = Exit 2
   \<and> snd (netcfg_service_main env_root (ArgError CommandArgBaseException))
       = Terminate CommandArgBaseException
   \<and> snd (configmgr_main env_attach_throws (Args no_args)) = Exit 2
   \<and> snd (netcfg_service_main env_attach_throws (Args no_args)) = Exit 3
   \<and> snd (configmgr_main env_setup_throws (Args no_args)) \<noteq> Exit 3"
proof -
  have r: "\<forall>a. throws env_root a = None" "getegid env_root = 0" "geteuid env_root = 0"
    "capng_change_id env_root = 0" "\<not> opt_signal_broadcast no_args"
    "catches env_root CommandArgBaseException CommandArgBaseException"
    "catches env_root CommandException CommandException"
    "\<not> catches env_root CommandException CommandArgBaseException"
    by (simp_all add: env_root_def no_args_def catches_def)
  have a: "throws env_attach_throws (AttachInterface OpenVPN3DBus_interf_configuration)
             = Some LogServiceProxyException"
    "throws env_attach_throws (Attach OpenVPN3DBus_interf_netcfg)
             = Some LogServiceProxyException"
    "throws env_attach_throws LogServiceProxyNew = None"
    "\<forall>a. \<not> is_relay_call a \<longrightarrow> throws env_attach_throws a = None"
    "catches env_attach_throws LogServiceProxyException LogServiceProxyException"
    "catches env_attach_throws std_exception LogServiceProxyException"
    "getegid env_attach_throws = 0" "geteuid env_attach_throws = 0"
    "capng_change_id env_attach_throws = 0"
    by (auto simp: env_attach_throws_def env_root_def catches_def is_relay_call_def)
  show ?thesis
    using exit_codes [of env_root no_args "ArgError CommandArgBaseException"
                         CommandArgBaseException]
      exit_codes [of env_root no_args "ArgError CommandException" CommandException]
      exit_codes [of env_root no_args "ArgError CommandArgBaseException"
                         CommandArgBaseException]
      exit_codes [of env_attach_throws no_args "Args no_args" LogServiceProxyException]
      exit_codes [of env_setup_throws no_args "Args no_args"]
      r a
    by simp
qed

section \<open>The idle watchdog fires once\<close>

lemma fired_step: "fired s \<Longrightarrow> fired (step e s)"
  by (cases e)
     (auto simp: fired_def activity_pulse_def poll_def request_stop_def split: option.splits)

lemma fired_fold: "fired s \<Longrightarrow> fired (fold step evs s)"
  by (induction evs arbitrary: s) (simp_all add: fired_step)

lemma armed_step:
  assumes "armed t now s" and "quiet_event t now e"
  shows "armed t now (step e s) \<or> fired (step e s)"
  using assms
  by (cases e)
     (auto simp: armed_def fired_def quiet_event_def activity_pulse_def poll_def
        request_stop_def split: option.splits)

lemma armed_fold:
  assumes "armed t now s \<or> fired s" and "list_all (quiet_event t now) evs"
  shows "armed t now (fold step evs s) \<or> fired (fold step evs s)"
  using assms
proof (induction evs arbitrary: s)
  case Nil
  then show ?case by simp
next
  case (Cons e evs)
  from Cons.prems have "armed t now (step e s) \<or> fired (step e s)"
    using armed_step [of t now s e] fired_step [of s e] by auto
  with Cons.prems(2) show ?case by (simp add: Cons.IH)
qed

lemma armed_poll: "armed t now s \<Longrightarrow> fired (step (Poll now) s)"
  by (auto simp: armed_def fired_def poll_def request_stop_def split: option.splits)

lemma armed_bootstrap: "0 < t \<Longrightarrow> t \<le> now \<Longrightarrow> armed t now (bootstrap t p)"
  by (simp add: armed_def bootstrap_def enable_def new_watchdog_def)

lemma fired_teardown:
  assumes "fired s"
  shows "termination_requests (teardown s) = 1 \<and> lifecycle_state (teardown s) = Stopped
       \<and> shutdown_request (teardown s) = idle_timeout"
  using assms by (auto simp: fired_def teardown_def split: option.splits)

text \<open>
  Claim C1: for every idle threshold \<open>t\<close> above 0, if at some tick of the poll thread
  no activity pulse has marked the daemon busy for at least \<open>t\<close>, then, whatever
  pulses and ticks follow, the loop has received exactly one termination request from the
  watchdog, recorded as an idle timeout, and the process ends in \<open>Stopped\<close>.
\<close>

theorem idle_timeout_requests_once:
  assumes "0 < t" and "evs = pre @ Poll now # post" and "quiet_for t pre now"
  shows "termination_requests (supervise t p evs) = 1
       \<and> lifecycle_state (supervise t p evs) = Stopped
       \<and> shutdown_request (supervise t p evs) = idle_timeout"
proof -
  from assms(3) have q: "t \<le> now" "list_all (quiet_event t now) pre"
    by (simp_all add: quiet_for_def quiet_event_def)
  let ?s = "fold step pre (bootstrap t p)"
  have "armed t now ?s \<or> fired ?s"
    using armed_fold [OF _ q(2)] armed_bootstrap [OF assms(1) q(1)] by blast
  then have "fired (step (Poll now) ?s)"
    using armed_poll fired_step by blast
  then have "fired (fold step post (step (Poll now) ?s))" by (rule fired_fold)
  then have "fired (fold step evs (bootstrap t p))" by (simp add: assms(2))
  then show ?thesis unfolding supervise_def by (rule fired_teardown)
qed

theorem idle_timeout_requests_once_witness:
  "quiet_for 60 [Pulse 0, Poll 15, Poll 30, Poll 45] 60
   \<and> termination_requests
        (supervise 60 15 [Pulse 0, Poll 15, Poll 30, Poll 45, Poll 60, Poll 75]) = 1
   \<and> lifecycle_state
        (supervise 60 15 [Pulse 0, Poll 15, Poll 30, Poll 45, Poll 60, Poll 75]) = Stopped"
proof -
  have q: "quiet_for 60 [Pulse 0, Poll 15, Poll 30, Poll 45] 60"
    by (simp add: quiet_for_def quiet_event_def)
  have e: "[Pulse 0, Poll 15, Poll 30, Poll 45, Poll 60, Poll 75]
         = [Pulse 0, Poll 15, Poll 30, Poll 45] @ Poll 60 # [Poll 75]" by simp
  have t: "(0::nat) < 60" by simp
  show ?thesis using idle_timeout_requests_once [OF t e q, of 15] q by simp
qed

end
